theory Spec2Isabelle
  imports Main
begin

section \<open>The DataSet engine: data model\<close>

text \<open>
  The repository holds two copies of the engine: \<^verbatim>\<open>src/godata.go\<close> and the Go text that
  follows the configuration lines of \<^verbatim>\<open>src/examples/events/.env\<close> (called ``the events
  copy'' below). The events copy is the fuller one (dialects, transactions, batches,
  \<^verbatim>\<open>CloseNoClearSQL\<close>); where the two differ, the definition says which copy it follows,
  and a definition following \<^verbatim>\<open>src/godata.go\<close> where the events copy has one of the same
  name carries the suffix \<open>_godata\<close>.

  Go strings are byte strings, modelled as \<open>string\<close>. Go's \<^verbatim>\<open>int\<close> is modelled as
  \<open>int\<close> for the cursor (its values stay between 0 and the row count plus one) and as
  \<open>nat\<close> for loop counters that start at 0 and only grow.
\<close>

text \<open>
  A function of the engine either returns, panics (an index out of range, a nil
  dereference, a misuse of reflection), or never returns (unbounded recursion).
\<close>

datatype 'a result = Ok 'a | Panic string | NoReturn

text \<open>Go \<^verbatim>\<open>error\<close> values are modelled by their messages.\<close>

type_synonym error = string

text \<open>
  Modelled from the spec: the type \<^verbatim>\<open>Variant\<close> is not under src/. It boxes one
  arbitrary value (\<^verbatim>\<open>Value any\<close>); the constructors are the dynamic types the modelled
  functions distinguish (nil, integer, string, boolean, a slice of strings, a slice of
  integers).
\<close>

datatype Variant = VNil | VInt int | VStr string | VBool bool
  | VStrings "string list" | VInts "int list"

text \<open>
  Modelled from the spec: the constants \<^verbatim>\<open>IN\<close>, \<^verbatim>\<open>OUT\<close>, \<^verbatim>\<open>INOUT\<close> and the types
  \<^verbatim>\<open>Param\<close> and \<^verbatim>\<open>Params\<close> are not under src/; the source reads the fields
  \<^verbatim>\<open>Name\<close>, \<^verbatim>\<open>Value\<close>, \<^verbatim>\<open>ParamType\<close>, \<^verbatim>\<open>Values\<close> of a parameter and \<^verbatim>\<open>List\<close>,
  \<^verbatim>\<open>BatchSize\<close> of the parameter set. A parameter built without a direction is an input
  parameter (the spec: discovered parameters are input parameters).
\<close>

datatype ParamType = IN | OUT | INOUT

record Param =
  ParamName :: string
  ParamValue :: Variant
  ParamTyp :: ParamType
  ParamValues :: "Variant list"

record Params =
  List :: "Param list"
  BatchSize :: int

record Macro =
  MacroName :: string
  MacroValue :: Variant

text \<open>A row maps upper-cased column names to values (\<^verbatim>\<open>row.List\<close> in \<^verbatim>\<open>scan\<close>).\<close>

type_synonym Row = "string \<rightharpoonup> Variant"

text \<open>
  Modelled from the spec: the type \<^verbatim>\<open>DataType\<close> and its constants, and the types
  \<^verbatim>\<open>Field\<close> and \<^verbatim>\<open>Fields\<close>, are not under src/. \<^verbatim>\<open>ScanKind\<close> stands for what
  \<^verbatim>\<open>field.DataType.ScanType()\<close> reports for a column, as far as \<^verbatim>\<open>scan\<close> looks at it.
\<close>

datatype DataType = Text | Integer | Float | DateTime | Boolean

datatype ScanKind = KString | KInt | KFloat | KTime | KOtherStruct | KBool | KOther

record Field =
  FieldName :: string
  FieldScanKind :: "ScanKind option"
  IDataType :: "DataType option"
  Order :: int
  FieldIndex :: int

text \<open>
  Modelled from the spec: the enumeration \<^verbatim>\<open>DialectType\<close> is not under src/; only its
  member \<^verbatim>\<open>POSTGRESQL\<close> occurs in the source.
\<close>

datatype DialectType = POSTGRESQL | OtherDialect

text \<open>
  Modelled from the spec: \<^verbatim>\<open>Conn\<close> and \<^verbatim>\<open>Transaction\<close> are not under src/; the source
  reads \<^verbatim>\<open>log\<close> and \<^verbatim>\<open>Dialect\<close> of a connection and \<^verbatim>\<open>Conn\<close> of a transaction. The
  database handles \<^verbatim>\<open>DB\<close> and \<^verbatim>\<open>tx\<close> are the outside world, modelled by \<open>driver\<close> below.
\<close>

record Conn =
  log :: bool
  Dialect :: DialectType

record Transaction =
  TxConn :: Conn

datatype Context = Context nat

text \<open>
  The master of a master-detail link is a pointer to another DataSet. What assembly reads
  through it is the master's current row, so the link holds the master's rows and cursor
  as they stand when the detail SQL is assembled.
\<close>

record MasterView =
  MasterRows :: "Row list"
  MasterIndex :: int

record MasterSource =
  DataSource :: "MasterView option"
  MasterFields :: "string list"
  DetailFields :: "string list"

text \<open>
  \<^verbatim>\<open>type DataSet struct\<close> of the events copy. \<^verbatim>\<open>Sql Strings\<close> is the list of fragments.
  The back pointers \<^verbatim>\<open>Fields.Owner\<close> and \<^verbatim>\<open>Params.Owner\<close> carry no state of their own and
  are left out.
\<close>

record DataSet =
  Connection :: Conn
  Tx :: "Transaction option"
  Ctx :: "Context option"
  Sql :: "string list"
  Fields :: "Field list"
  Params :: Params
  Macros :: "Macro list"
  Rows :: "Row list"
  Index :: int
  Recno :: int
  MasterSource :: MasterSource
  IndexFieldNames :: string
  Silent :: bool

text \<open>
  Modelled from the spec: the constructors \<^verbatim>\<open>NewFields\<close>, \<^verbatim>\<open>NewParams\<close>, \<^verbatim>\<open>NewMacros\<close>,
  \<^verbatim>\<open>NewMasterSource\<close> and the methods of \<^verbatim>\<open>Strings\<close> are not under src/. The constructors
  give empty sets and an unattached link; the SQL text buffer is an ordered sequence of
  fragments concatenated into one statement.
\<close>

definition NewFields :: "Field list" where
  "NewFields = []"

definition NewParams :: Params where
  "NewParams = \<lparr>List = [], BatchSize = 0\<rparr>"

definition NewMacros :: "Macro list" where
  "NewMacros = []"

definition NewMasterSource :: MasterSource where
  "NewMasterSource = \<lparr>DataSource = None, MasterFields = [], DetailFields = []\<rparr>"

definition Strings_Clear :: "string list \<Rightarrow> string list" where
  "Strings_Clear s = []"

definition Strings_Add :: "string list \<Rightarrow> string \<Rightarrow> string list" where
  "Strings_Add s x = s @ [x]"

definition Strings_Text :: "string list \<Rightarrow> string" where
  "Strings_Text s = concat s"

definition NewDataSet :: "Conn \<Rightarrow> DataSet" where
  "NewDataSet db =
     \<lparr>Connection = db, Tx = None, Ctx = None, Sql = [], Fields = NewFields,
      Params = NewParams, Macros = NewMacros, Rows = [], Index = 0, Recno = 0,
      MasterSource = NewMasterSource, IndexFieldNames = [], Silent = True\<rparr>"

definition NewDataSetTx :: "Transaction \<Rightarrow> DataSet" where
  "NewDataSetTx tx = (NewDataSet (TxConn tx))\<lparr>Tx := Some tx\<rparr>"

definition AddSql :: "DataSet \<Rightarrow> string \<Rightarrow> DataSet" where
  "AddSql ds sql = ds\<lparr>Sql := Strings_Add (Sql ds) sql\<rparr>"

section \<open>Text helpers\<close>

text \<open>Decimal digits, \<^verbatim>\<open>%d\<close> and \<^verbatim>\<open>%04d\<close> of \<^verbatim>\<open>fmt.Sprintf\<close>.\<close>

definition digit :: "nat \<Rightarrow> char" where
  "digit n = ''0123456789'' ! (n mod 10)"

function showNat :: "nat \<Rightarrow> string" where
  "showNat n = (if n < 10 then [digit n] else showNat (n div 10) @ [digit n])"
  by pat_completeness auto
termination
  by (relation "measure id") auto

declare showNat.simps [simp del]

definition showInt :: "int \<Rightarrow> string" where
  "showInt n = (if n < 0 then CHR ''-'' # showNat (nat (- n)) else showNat (nat n))"

definition Sprintf_04d :: "nat \<Rightarrow> string" where
  "Sprintf_04d i = replicate (4 - length (showNat i)) CHR ''0'' @ showNat i"

text \<open>\<^verbatim>\<open>strings.Index\<close>: the index of the first occurrence, \<open>None\<close> for \<^verbatim>\<open>-1\<close>.\<close>

fun strings_Index :: "string \<Rightarrow> string \<Rightarrow> nat option" where
  "strings_Index [] substr = (if substr = [] then Some 0 else None)"
| "strings_Index (c # s) substr =
     (if take (length substr) (c # s) = substr then Some 0
      else map_option Suc (strings_Index s substr))"

text \<open>
  \<^verbatim>\<open>strings.ReplaceAll\<close> (and \<^verbatim>\<open>strings.Replace\<close> with count \<^verbatim>\<open>-1\<close>): the non-overlapping
  occurrences of \<open>old\<close>, leftmost first, are replaced by \<open>new\<close>. An empty \<open>old\<close> matches
  before every character and at the end. The source only calls it with a non-empty
  \<open>old\<close>.
\<close>

function strings_ReplaceAll :: "string \<Rightarrow> string \<Rightarrow> string \<Rightarrow> string" where
  "strings_ReplaceAll s old new =
     (if old = [] then new @ concat (map (\<lambda>c. c # new) s)
      else case strings_Index s old of
             None \<Rightarrow> s
           | Some i \<Rightarrow> take i s @ new @ strings_ReplaceAll (drop (i + length old) s) old new)"
  by pat_completeness auto
termination
proof (relation "measure (\<lambda>(s, old, new). length s)")
  show "wf (measure (\<lambda>(s, old, new). length s))" by simp
next
  fix s old new :: string and i :: nat
  assume old: "old \<noteq> []" and idx: "strings_Index s old = Some i"
  have "\<And>j. strings_Index t old = Some j \<Longrightarrow> j + length old \<le> length t" for t
  proof (induction t)
    case Nil
    then show ?case by (simp split: if_splits)
  next
    case (Cons c t)
    show ?case
    proof (cases "take (length old) (c # t) = old")
      case True
      then have "length (take (length old) (c # t)) = length old" by simp
      then have "length old \<le> length (c # t)"
        by (simp add: min_def split: if_splits)
      with True Cons.prems show ?thesis by simp
    next
      case False
      with Cons.prems obtain k where "strings_Index t old = Some k" "j = Suc k"
        by auto
      with Cons.IH[of k] show ?thesis by simp
    qed
  qed
  from this[OF idx] old have "length s > 0" by (cases old) auto
  then show "((drop (i + length old) s, old, new), (s, old, new))
               \<in> measure (\<lambda>(s, old, new). length s)"
    using old by simp
qed

declare strings_ReplaceAll.simps [simp del]

text \<open>\<^verbatim>\<open>strings.Join\<close>.\<close>

fun strings_Join :: "string list \<Rightarrow> string \<Rightarrow> string" where
  "strings_Join [] sep = []"
| "strings_Join [x] sep = x"
| "strings_Join (x # y # ys) sep = x @ sep @ strings_Join (y # ys) sep"

text \<open>\<^verbatim>\<open>strings.ToUpper\<close> on ASCII text.\<close>

definition upper_char :: "char \<Rightarrow> char" where
  "upper_char c =
     (if 97 \<le> (of_char c :: nat) \<and> (of_char c :: nat) \<le> 122
      then char_of ((of_char c :: nat) - 32) else c)"

definition strings_ToUpper :: "string \<Rightarrow> string" where
  "strings_ToUpper s = map upper_char s"

section \<open>Dialect-specific placeholder translation\<close>

text \<open>
  \<^verbatim>\<open>replaceParamPG\<close> (events copy). The recursion is on the text right of the match; it
  is unbounded when \<open>param\<close> is empty, so the function is partial: \<open>None\<close> stands for
  ``does not return''. \<^verbatim>\<open>sql[i+pSize]\<close> is read only when \<open>i \<noteq> len(sql) - pSize\<close>, and is
  then in range (lemma \<open>strings_Index_bound\<close> below).
\<close>

definition delimiters :: "char list" where
  "delimiters = [CHR '' '', CHR '','', CHR ''('', CHR '')'', CHR ''='', CHR ''|'', CHR ''['', CHR '']'']"

partial_function (option) replaceParamPG :: "string \<Rightarrow> string \<Rightarrow> int \<Rightarrow> (string \<times> int) option" where
  "replaceParamPG sql param paramNumber =
     (case strings_Index sql param of
        None \<Rightarrow> Some (sql, paramNumber)
      | Some i \<Rightarrow>
          Option.bind (replaceParamPG (drop (i + length param) sql) param paramNumber)
            (\<lambda>(end, paramNumber').
               Some (if int i = int (length sql) - int (length param)
                        \<or> sql ! (i + length param) \<in> set delimiters
                     then take i sql @ ''$'' @ showInt paramNumber' @ end
                     else take i sql @ param @ end,
                     paramNumber')))"

declare replaceParamPG.simps [code]

text \<open>
  \<^verbatim>\<open>replaceAllParam\<close> (events copy): the loop over \<^verbatim>\<open>ds.Params.List\<close> from index \<open>i\<close> on.
  The deferred \<^verbatim>\<open>recover\<close> has nothing to catch: \<^verbatim>\<open>replaceParamPG\<close> does not panic.
\<close>

fun replaceAllParam_loop :: "Param list \<Rightarrow> int \<Rightarrow> string \<Rightarrow> string result" where
  "replaceAllParam_loop [] i newSql = Ok newSql"
| "replaceAllParam_loop (p # ps) i newSql =
     (case replaceParamPG newSql (CHR '':'' # ParamName p) (i + 1) of
        None \<Rightarrow> NoReturn
      | Some (newSql', _) \<Rightarrow> replaceAllParam_loop ps (i + 1) newSql')"

definition dialect_of :: "DataSet \<Rightarrow> DialectType" where
  "dialect_of ds = (case Tx ds of Some tx \<Rightarrow> Dialect (TxConn tx) | None \<Rightarrow> Dialect (Connection ds))"

definition replaceAllParam :: "DataSet \<Rightarrow> string \<Rightarrow> string result" where
  "replaceAllParam ds sql =
     (case dialect_of ds of
        POSTGRESQL \<Rightarrow> replaceAllParam_loop (List (Params ds)) 0 sql
      | OtherDialect \<Rightarrow> Ok sql)"

text \<open>
  The translation in the words of the spec, for comparison: per registered parameter in
  list order (index \<open>i\<close>, number \<open>N = i + 1\<close>), scan the text left to right for the token
  \<open>:name\<close>; an occurrence is valid if the character right after it is a delimiter or the
  token ends the text; every valid occurrence becomes \<open>$N\<close>, any other occurrence is
  kept, and the scan goes on right of the occurrence.
\<close>

function rewrite_token :: "string \<Rightarrow> int \<Rightarrow> string \<Rightarrow> string" where
  "rewrite_token tok n [] = []"
| "rewrite_token tok n (c # cs) =
     (if tok \<noteq> [] \<and> take (length tok) (c # cs) = tok
      then (case drop (length tok) (c # cs) of
              [] \<Rightarrow> ''$'' @ showInt n
            | d # rest \<Rightarrow>
                (if d \<in> set delimiters then ''$'' @ showInt n else tok)
                @ rewrite_token tok n (d # rest))
      else c # rewrite_token tok n cs)"
  by pat_completeness auto
termination
  by (relation "measure (\<lambda>(tok, n, s). length s)")
     (auto simp: drop_Cons' split: if_splits dest!: arg_cong[where f = length])

fun translate_spec :: "string list \<Rightarrow> int \<Rightarrow> string \<Rightarrow> string" where
  "translate_spec [] i sql = sql"
| "translate_spec (name # names) i sql =
     translate_spec names (i + 1) (rewrite_token (CHR '':'' # name) (i + 1) sql)"

definition placeholder_text :: "DataSet \<Rightarrow> string \<Rightarrow> string" where
  "placeholder_text ds sql =
     (case dialect_of ds of
        POSTGRESQL \<Rightarrow> translate_spec (map ParamName (List (Params ds))) 0 sql
      | OtherDialect \<Rightarrow> sql)"

section \<open>SQL assembly\<close>

definition rbind :: "'a result \<Rightarrow> ('a \<Rightarrow> 'b result) \<Rightarrow> 'b result" where
  "rbind r f = (case r of Ok x \<Rightarrow> f x | Panic e \<Rightarrow> Panic e | NoReturn \<Rightarrow> NoReturn)"

text \<open>
  What the engine prints and what it asks of the database, in order. The handles
  \<^verbatim>\<open>ds.Connection.DB\<close>, \<^verbatim>\<open>ds.Tx.tx\<close> and \<^verbatim>\<open>ds.Tx.Conn.DB\<close> are told apart; a call made
  through its \<^verbatim>\<open>...Context\<close> variant carries the context.
\<close>

datatype bound = Named string Variant | NamedOut string Variant | NamedInOut string Variant

datatype call =
    Println string
  | PrintParam "Param list"
  | DBQuery "Context option" string "bound list"
  | TxQuery "Context option" string "bound list"
  | TxConnDBQuery "Context option" string "bound list"
  | DBPing "Context option"
  | ConnOpen
  | DBPrepare "Context option" string
  | TxPrepare "Context option" string
  | StmtExec "Context option" "bound list"
  | StmtClose
  | RowsClose

text \<open>
  Modelled from the spec: \<^verbatim>\<open>Variant.AsString\<close> is not under src/. A scalar is
  stringified (a string as itself, an integer in decimal, a boolean as \<^verbatim>\<open>true\<close> or
  \<^verbatim>\<open>false\<close>, nil as the empty text); \<^verbatim>\<open>GetSql\<close> does not call it on a slice, for which
  the model gives the elements between brackets.
\<close>

fun AsString :: "Variant \<Rightarrow> string" where
  "AsString VNil = []"
| "AsString (VInt i) = showInt i"
| "AsString (VStr s) = s"
| "AsString (VBool b) = (if b then ''true'' else ''false'')"
| "AsString (VStrings xs) = ''['' @ strings_Join xs '' '' @ '']''"
| "AsString (VInts xs) = ''['' @ strings_Join (map showInt xs) '' '' @ '']''"

text \<open>
  \<^verbatim>\<open>JoinSlice\<close>: string elements are quoted, other elements are printed with \<^verbatim>\<open>%v\<close>, and
  the pieces are joined with a comma and a space. The elements of a string are its
  bytes, printed as numbers. \<^verbatim>\<open>reflect\<close>'s \<^verbatim>\<open>Len\<close> panics on a value that is neither a
  slice, an array nor a string.
\<close>

fun JoinSlice :: "Variant \<Rightarrow> string result" where
  "JoinSlice (VStrings xs) = Ok (strings_Join (map (\<lambda>x. [CHR 0x27] @ x @ [CHR 0x27]) xs) '', '')"
| "JoinSlice (VInts xs) = Ok (strings_Join (map showInt xs) '', '')"
| "JoinSlice (VStr s) = Ok (strings_Join (map (\<lambda>c. showNat (of_char c)) s) '', '')"
| "JoinSlice v = Panic ''reflect: call of reflect.Value.Len on a value that is not a slice''"

fun is_slice_kind :: "Variant \<Rightarrow> bool" where
  "is_slice_kind (VStrings xs) = True"
| "is_slice_kind (VInts xs) = True"
| "is_slice_kind v = False"

text \<open>The macro loop of \<^verbatim>\<open>GetSql\<close>, and its two newline replacements.\<close>

fun macros_loop :: "Macro list \<Rightarrow> string \<Rightarrow> string result" where
  "macros_loop [] sql = Ok sql"
| "macros_loop (m # ms) sql =
     (if is_slice_kind (MacroValue m)
      then rbind (JoinSlice (MacroValue m))
             (\<lambda>t. macros_loop ms (strings_ReplaceAll sql (CHR ''&'' # MacroName m) t))
      else macros_loop ms (strings_ReplaceAll sql (CHR ''&'' # MacroName m)
                             (AsString (MacroValue m))))"

definition newlines :: "string \<Rightarrow> string" where
  "newlines sql =
     strings_ReplaceAll (strings_ReplaceAll sql [CHR 0x0D] [CHR 0x0A]) [CHR 0x0A] [CHR 0x0A, CHR '' '']"

text \<open>\<^verbatim>\<open>GetSql\<close> of \<^verbatim>\<open>src/godata.go\<close>: no placeholder translation.\<close>

definition GetSql_godata :: "DataSet \<Rightarrow> string result" where
  "GetSql_godata ds =
     rbind (macros_loop (Macros ds) (Strings_Text (Sql ds))) (\<lambda>sql. Ok (newlines sql))"

text \<open>\<^verbatim>\<open>GetSql\<close> of the events copy.\<close>

definition GetSql :: "DataSet \<Rightarrow> string result" where
  "GetSql ds =
     rbind (macros_loop (Macros ds) (Strings_Text (Sql ds)))
       (\<lambda>sql. replaceAllParam ds (newlines sql))"

text \<open>
  Modelled from the spec: \<^verbatim>\<open>Params.SetInputParam\<close> is not under src/. A parameter is
  identified by its name: the value of a registered name is replaced and the parameter
  becomes an input parameter; an unregistered name is appended as an input parameter.
\<close>

definition SetInputParam :: "Params \<Rightarrow> string \<Rightarrow> Variant \<Rightarrow> Params" where
  "SetInputParam ps paramName paramValue =
     (if paramName \<in> set (map ParamName (List ps))
      then ps\<lparr>List := map (\<lambda>p. if ParamName p = paramName
                                then p\<lparr>ParamValue := paramValue, ParamTyp := IN\<rparr> else p)
                         (List ps)\<rparr>
      else ps\<lparr>List := List ps @ [\<lparr>ParamName = paramName, ParamValue = paramValue,
                                   ParamTyp = IN, ParamValues = []\<rparr>]\<rparr>)"

text \<open>
  Modelled from the spec: \<^verbatim>\<open>FieldByName\<close> and \<^verbatim>\<open>Field.AsValue\<close> are not under src/. A field
  is a view: reading it fetches the value stored under the upper-cased name in the
  current row; without a current row or without such a column the value is nil.
\<close>

definition current_value :: "Row list \<Rightarrow> int \<Rightarrow> string \<Rightarrow> Variant" where
  "current_value rows i fieldName =
     (if 0 \<le> i \<and> i < int (length rows)
      then (case (rows ! nat i) (strings_ToUpper fieldName) of Some v \<Rightarrow> v | None \<Rightarrow> VNil)
      else VNil)"

definition Master_FieldByName_AsValue :: "MasterView \<Rightarrow> string \<Rightarrow> Variant" where
  "Master_FieldByName_AsValue m fieldName = current_value (MasterRows m) (MasterIndex m) fieldName"

definition FieldByName_AsValue :: "DataSet \<Rightarrow> string \<Rightarrow> Variant" where
  "FieldByName_AsValue ds fieldName = current_value (Rows ds) (Index ds) fieldName"

text \<open>
  The loop of \<^verbatim>\<open>GetSqlMasterDetail\<close> from index \<open>i\<close> on, with the where-clause and the
  parameters built so far. \<^verbatim>\<open>ds.MasterSource.DetailFields[i]\<close> panics when \<open>i\<close> is out
  of range; the parameters registered before stay registered.
\<close>

function masterDetail_loop ::
  "MasterView \<Rightarrow> string list \<Rightarrow> string list \<Rightarrow> nat \<Rightarrow> string \<Rightarrow> Params \<Rightarrow> string result \<times> Params" where
  "masterDetail_loop master mf df i sqlWhereMasterDetail ps =
     (if i < length mf then
        (let alias = mf ! i @ Sprintf_04d i in
         if i < length df then
           masterDetail_loop master mf df (Suc i)
             (if int i = int (length mf) - 1
              then sqlWhereMasterDetail @ df ! i @ '' = :'' @ alias
              else sqlWhereMasterDetail @ df ! i @ '' = :'' @ alias @ '' and '')
             (SetInputParam ps alias (Master_FieldByName_AsValue master (mf ! i)))
         else (Panic ''index out of range'', ps))
      else (Ok sqlWhereMasterDetail, ps))"
  by pat_completeness auto
termination
  by (relation "measure (\<lambda>(master, mf, df, i, w, ps). length mf - i)") auto

declare masterDetail_loop.simps [simp del]

text \<open>
  \<^verbatim>\<open>GetSqlMasterDetail\<close> of the events copy. It returns the text, the DataSet with the
  parameters it registered, and the trace extended by what it printed.
\<close>

definition GetSqlMasterDetail :: "DataSet \<Rightarrow> call list \<Rightarrow> string result \<times> DataSet \<times> call list" where
  "GetSqlMasterDetail ds tr =
     (case GetSql ds of
        Panic e \<Rightarrow> (Panic e, ds, tr)
      | NoReturn \<Rightarrow> (NoReturn, ds, tr)
      | Ok vsql \<Rightarrow>
          (case DataSource (MasterSource ds) of
             None \<Rightarrow> (replaceAllParam ds (newlines vsql), ds, tr)
           | Some master \<Rightarrow>
               if length (MasterFields (MasterSource ds)) \<noteq> 0
                  \<or> length (DetailFields (MasterSource ds)) \<noteq> 0
               then
                 (case masterDetail_loop master (MasterFields (MasterSource ds))
                         (DetailFields (MasterSource ds)) 0 [] (Params ds) of
                    (Panic e, ps) \<Rightarrow> (Panic e, ds\<lparr>Params := ps\<rparr>, tr)
                  | (NoReturn, ps) \<Rightarrow> (NoReturn, ds\<lparr>Params := ps\<rparr>, tr)
                  | (Ok sqlWhereMasterDetail, ps) \<Rightarrow>
                      (let ds' = ds\<lparr>Params := ps\<rparr>;
                           vsql' = (if sqlWhereMasterDetail \<noteq> []
                                    then ''select * from ('' @ vsql @ '') t where ''
                                         @ sqlWhereMasterDetail
                                    else vsql)
                       in (replaceAllParam ds' (newlines vsql'), ds', tr)))
               else
                 (replaceAllParam ds (newlines vsql), ds,
                  tr @ [Println ''MasterFields or DetailFields field cannot be empty''])))"




text \<open>\<^verbatim>\<open>GetParams\<close> and \<^verbatim>\<open>GetParamsBatch\<close> (events copy).\<close>

definition bind_param :: "Param \<Rightarrow> Variant \<Rightarrow> bound" where
  "bind_param p v =
     (case ParamTyp p of
        IN \<Rightarrow> Named (ParamName p) v
      | OUT \<Rightarrow> NamedOut (ParamName p) v
      | INOUT \<Rightarrow> NamedInOut (ParamName p) v)"

definition GetParams :: "DataSet \<Rightarrow> bound list" where
  "GetParams ds = map (\<lambda>p. bind_param p (ParamValue p)) (List (Params ds))"

fun GetParamsBatch_loop :: "Param list \<Rightarrow> nat \<Rightarrow> bound list \<Rightarrow> bound list result" where
  "GetParamsBatch_loop [] index param = Ok param"
| "GetParamsBatch_loop (p # ps) index param =
     (if index < length (ParamValues p)
      then GetParamsBatch_loop ps index (param @ [bind_param p (ParamValues p ! index)])
      else Panic ''index out of range'')"

definition GetParamsBatch :: "DataSet \<Rightarrow> nat \<Rightarrow> bound list result" where
  "GetParamsBatch ds index = GetParamsBatch_loop (List (Params ds)) index []"

section \<open>Cursor navigation\<close>

text \<open>\<^verbatim>\<open>Count\<close>, \<^verbatim>\<open>Bof\<close>, \<^verbatim>\<open>Eof\<close>, \<^verbatim>\<open>First\<close>, \<^verbatim>\<open>Next\<close>, \<^verbatim>\<open>Previous\<close> are the same in both copies.\<close>

definition Count :: "DataSet \<Rightarrow> int" where
  "Count ds = int (length (Rows ds))"

definition Bof :: "DataSet \<Rightarrow> bool" where
  "Bof ds = (Count ds = 0 \<or> Recno ds = 1)"

definition Eof :: "DataSet \<Rightarrow> bool" where
  "Eof ds = (Count ds = 0 \<or> Recno ds > Count ds)"

definition First :: "DataSet \<Rightarrow> DataSet" where
  "First ds =
     (let ds1 = ds\<lparr>Index := 0, Recno := 0\<rparr>
      in if Count ds1 > 0 then ds1\<lparr>Recno := 1\<rparr> else ds1)"

definition Next :: "DataSet \<Rightarrow> DataSet" where
  "Next ds = (if \<not> Eof ds then ds\<lparr>Index := Index ds + 1, Recno := Recno ds + 1\<rparr> else ds)"

definition Previous :: "DataSet \<Rightarrow> DataSet" where
  "Previous ds = (if \<not> Bof ds then ds\<lparr>Index := Index ds - 1, Recno := Recno ds - 1\<rparr> else ds)"

text \<open>\<^verbatim>\<open>Last\<close> of the events copy.\<close>

definition Last :: "DataSet \<Rightarrow> DataSet" where
  "Last ds =
     (let ds1 = ds\<lparr>Index := Count ds - 1\<rparr>;
          ds2 = (if Count ds1 = 0 then ds1\<lparr>Index := 0\<rparr> else ds1)
      in ds2\<lparr>Recno := Count ds2\<rparr>)"

text \<open>
  The iteration idiom of the source (\<^verbatim>\<open>for !ds.Eof() { ...; ds.Next() }\<close>, as in \<^verbatim>\<open>Locate\<close>
  and \<^verbatim>\<open>toStructList\<close>): \<open>visit ds\<close> lists the states in which the loop body runs, and
  \<open>finish ds\<close> is the state in which the loop ends.
\<close>

function visit :: "DataSet \<Rightarrow> DataSet list" where
  "visit ds = (if Eof ds then [] else ds # visit (Next ds))"
  by pat_completeness auto
termination
  by (relation "measure (\<lambda>ds. nat (Count ds + 1 - Recno ds))")
     (auto simp: Eof_def Next_def Count_def)

function finish :: "DataSet \<Rightarrow> DataSet" where
  "finish ds = (if Eof ds then ds else finish (Next ds))"
  by pat_completeness auto
termination
  by (relation "measure (\<lambda>ds. nat (Count ds + 1 - Recno ds))")
     (auto simp: Eof_def Next_def Count_def)

declare visit.simps [simp del] finish.simps [simp del]

section \<open>Close\<close>

text \<open>\<^verbatim>\<open>Close\<close> (both copies) and \<^verbatim>\<open>CloseNoClearSQL\<close> (events copy).\<close>

definition Close :: "DataSet \<Rightarrow> DataSet" where
  "Close ds =
     ds\<lparr>Index := 0, Recno := 0, Sql := Strings_Clear (Sql ds), Rows := [],
        IndexFieldNames := [], Fields := NewFields, Params := NewParams,
        Macros := NewMacros, MasterSource := NewMasterSource\<rparr>"

definition CloseNoClearSQL :: "DataSet \<Rightarrow> DataSet" where
  "CloseNoClearSQL ds =
     ds\<lparr>Index := 0, Recno := 0, Rows := [],
        IndexFieldNames := [], Fields := NewFields, Params := NewParams,
        Macros := NewMacros, MasterSource := NewMasterSource\<rparr>"

section \<open>The database seen from the engine\<close>

text \<open>
  What a query returns: the column names, the column types as far as \<^verbatim>\<open>scan\<close> looks at
  them, and the records, one value per column.
\<close>

record RowSet =
  Columns :: "string list"
  ColumnTypes :: "ScanKind list"
  Records :: "Variant list list"

text \<open>
  The answers of the database. Each answer may depend on everything printed and asked so
  far, the call being answered included (it is the last element of the trace). As in
  \<^verbatim>\<open>database/sql\<close>, a query returns either an error or rows, never neither.
\<close>

record driver =
  query :: "call list \<Rightarrow> error + RowSet"
  ping :: "call list \<Rightarrow> error option"
  reopen :: "call list \<Rightarrow> error option"
  prepare :: "call list \<Rightarrow> error option"
  exec :: "call list \<Rightarrow> error option"

text \<open>The logging block \<^verbatim>\<open>if conn.log { fmt.Println(query); ds.PrintParam() }\<close>.\<close>

definition log_query :: "Conn \<Rightarrow> string \<Rightarrow> DataSet \<Rightarrow> call list \<Rightarrow> call list" where
  "log_query conn q ds tr = (if log conn then tr @ [Println q, PrintParam (List (Params ds))] else tr)"

section \<open>Scanning rows\<close>

definition kind_DataType :: "ScanKind \<Rightarrow> DataType option \<Rightarrow> DataType option" where
  "kind_DataType k old =
     (case k of
        KString \<Rightarrow> Some Text
      | KInt \<Rightarrow> Some Integer
      | KFloat \<Rightarrow> Some Float
      | KTime \<Rightarrow> Some DateTime
      | KOtherStruct \<Rightarrow> old
      | KBool \<Rightarrow> Some Boolean
      | KOther \<Rightarrow> old)"

text \<open>
  Modelled from the spec: \<^verbatim>\<open>Fields.Add\<close> is not under src/. A field is identified by its
  case-insensitive name: \<open>Fields_Add\<close> gives the position of the field of that name,
  appending a fresh field when there is none.
\<close>

definition new_field :: "string \<Rightarrow> Field" where
  "new_field name =
     \<lparr>FieldName = name, FieldScanKind = None, IDataType = None, Order = 0, FieldIndex = 0\<rparr>"

fun find_field :: "Field list \<Rightarrow> string \<Rightarrow> nat option" where
  "find_field [] name = None"
| "find_field (f # fs) name =
     (if strings_ToUpper (FieldName f) = strings_ToUpper name then Some 0
      else map_option Suc (find_field fs name))"

definition Fields_Add :: "Field list \<Rightarrow> string \<Rightarrow> Field list \<times> nat" where
  "Fields_Add fl name =
     (case find_field fl name of
        Some k \<Rightarrow> (fl, k)
      | None \<Rightarrow> (fl @ [new_field name], length fl))"

definition type_field :: "Field \<Rightarrow> ScanKind \<Rightarrow> nat \<Rightarrow> Field" where
  "type_field f k i =
     f\<lparr>FieldScanKind := Some k, IDataType := kind_DataType k (IDataType f),
       Order := int i + 1, FieldIndex := int i\<rparr>"

text \<open>
  The two field loops of \<^verbatim>\<open>scan\<close> (events copy): the first runs when no field is declared,
  the second otherwise. \<^verbatim>\<open>fieldTypes[i]\<close> panics when \<open>i\<close> is out of range.
\<close>

function scan_new_fields :: "string list \<Rightarrow> ScanKind list \<Rightarrow> nat \<Rightarrow> Field list \<Rightarrow> unit result \<times> Field list" where
  "scan_new_fields names fieldTypes i fl =
     (if i < length names then
        (case Fields_Add fl (names ! i) of
           (fl', k) \<Rightarrow>
             if i < length fieldTypes
             then scan_new_fields names fieldTypes (Suc i)
                    (fl'[k := type_field (fl' ! k) (fieldTypes ! i) i])
             else (Panic ''index out of range'', fl'))
      else (Ok (), fl))"
  by pat_completeness auto
termination
  by (relation "measure (\<lambda>(names, fieldTypes, i, fl). length names - i)") auto

declare scan_new_fields.simps [simp del]

function scan_old_fields :: "ScanKind list \<Rightarrow> nat \<Rightarrow> Field list \<Rightarrow> unit result \<times> Field list" where
  "scan_old_fields fieldTypes i fl =
     (if i < length fl then
        (if i < length fieldTypes
         then scan_old_fields fieldTypes (Suc i) (fl[i := type_field (fl ! i) (fieldTypes ! i) i])
         else (Panic ''index out of range'', fl))
      else (Ok (), fl))"
  by pat_completeness auto
termination
  by (relation "measure (\<lambda>(fieldTypes, i, fl). length fl - i)") auto

declare scan_old_fields.simps [simp del]

text \<open>One scanned row: the values stored under the upper-cased column names, in order.\<close>

definition scan_row :: "string list \<Rightarrow> Variant list \<Rightarrow> Row" where
  "scan_row names columns =
     fold (\<lambda>(name, v) row. row(strings_ToUpper name \<mapsto> v)) (zip names columns) Map.empty"

definition scan :: "DataSet \<Rightarrow> RowSet \<Rightarrow> unit result \<times> DataSet" where
  "scan ds list =
     (case (if length (Fields ds) = 0
            then scan_new_fields (Columns list) (ColumnTypes list) 0 (Fields ds)
            else scan_old_fields (ColumnTypes list) 0 (Fields ds)) of
        (Ok u, fl) \<Rightarrow>
          (Ok (), ds\<lparr>Fields := fl, Rows := Rows ds @ map (scan_row (Columns list)) (Records list)\<rparr>)
      | (Panic e, fl) \<Rightarrow> (Panic e, ds\<lparr>Fields := fl\<rparr>)
      | (NoReturn, fl) \<Rightarrow> (NoReturn, ds\<lparr>Fields := fl\<rparr>))"

section \<open>Open\<close>

text \<open>
  The end of \<^verbatim>\<open>Open\<close> once rows are at hand: \<^verbatim>\<open>scan\<close>, \<^verbatim>\<open>First\<close>, and the deferred
  \<^verbatim>\<open>rows.Close()\<close>, which also runs when \<^verbatim>\<open>scan\<close> panics.
\<close>

definition Open_rows :: "DataSet \<Rightarrow> RowSet \<Rightarrow> call list \<Rightarrow> error option result \<times> DataSet \<times> call list" where
  "Open_rows ds rows tr =
     (case scan ds rows of
        (Ok u, ds') \<Rightarrow> (Ok None, First ds', tr @ [RowsClose])
      | (Panic e, ds') \<Rightarrow> (Panic e, ds', tr @ [RowsClose])
      | (NoReturn, ds') \<Rightarrow> (NoReturn, ds', tr))"

text \<open>
  The query of \<^verbatim>\<open>Open\<close> against the connection with its error handling (events copy):
  \<open>ctx\<close> is the context of the query, \<open>pctx\<close> the context of the ping.
\<close>

definition Open_connection ::
  "driver \<Rightarrow> DataSet \<Rightarrow> string \<Rightarrow> Context option \<Rightarrow> Context option \<Rightarrow> call list
   \<Rightarrow> error option result \<times> DataSet \<times> call list" where
  "Open_connection drv ds q ctx pctx tr =
     (let tr1 = tr @ [DBQuery ctx q (GetParams ds)] in
      case query drv tr1 of
        Inr rows \<Rightarrow> Open_rows ds rows tr1
      | Inl err \<Rightarrow>
          (let tr2 = tr1 @ [DBPing pctx] in
           case ping drv tr2 of
             Some errPing \<Rightarrow>
               (let tr3 = tr2 @ [ConnOpen] in
                case reopen drv tr3 of
                  Some errConn \<Rightarrow> (Ok (Some err), ds, tr3)
                | None \<Rightarrow>
                    (let tr4 = tr3 @ [DBQuery ctx q (GetParams ds)] in
                     case query drv tr4 of
                       Inl err' \<Rightarrow> (Ok (Some err'), ds, tr4)
                     | Inr rows \<Rightarrow> Open_rows ds rows tr4))
           | None \<Rightarrow> (Ok (Some (''could not open dataset '' @ err @ [CHR 0x0A])), ds, tr2)))"

text \<open>\<^verbatim>\<open>Open\<close> of the events copy.\<close>

definition Open :: "driver \<Rightarrow> DataSet \<Rightarrow> call list \<Rightarrow> error option result \<times> DataSet \<times> call list" where
  "Open drv ds tr =
     (case GetSqlMasterDetail (ds\<lparr>Rows := [], Index := 0, Recno := 0\<rparr>) tr of
        (Panic e, ds1, tr1) \<Rightarrow> (Panic e, ds1, tr1)
      | (NoReturn, ds1, tr1) \<Rightarrow> (NoReturn, ds1, tr1)
      | (Ok q, ds1, tr1) \<Rightarrow>
          (case Tx ds1 of
             Some tx \<Rightarrow>
               (let tr2 = log_query (TxConn tx) q ds1 tr1 @ [TxQuery (Ctx ds1) q (GetParams ds1)] in
                case query drv tr2 of
                  Inl err \<Rightarrow> (Ok (Some err), ds1, tr2)
                | Inr rows \<Rightarrow> Open_rows ds1 rows tr2)
           | None \<Rightarrow>
               Open_connection drv ds1 q (Ctx ds1) None (log_query (Connection ds1) q ds1 tr1)))"


section \<open>Open in src/godata.go\<close>

text \<open>
  \<^verbatim>\<open>GetSqlMasterDetail\<close> of \<^verbatim>\<open>src/godata.go\<close>: the same loop and wrapping, without the
  placeholder translation.
\<close>

definition GetSqlMasterDetail_godata :: "DataSet \<Rightarrow> call list \<Rightarrow> string result \<times> DataSet \<times> call list" where
  "GetSqlMasterDetail_godata ds tr =
     (case GetSql_godata ds of
        Panic e \<Rightarrow> (Panic e, ds, tr)
      | NoReturn \<Rightarrow> (NoReturn, ds, tr)
      | Ok sql \<Rightarrow>
          (case DataSource (MasterSource ds) of
             None \<Rightarrow> (Ok (newlines sql), ds, tr)
           | Some master \<Rightarrow>
               if length (MasterFields (MasterSource ds)) \<noteq> 0
                  \<or> length (DetailFields (MasterSource ds)) \<noteq> 0
               then
                 (case masterDetail_loop master (MasterFields (MasterSource ds))
                         (DetailFields (MasterSource ds)) 0 [] (Params ds) of
                    (Panic e, ps) \<Rightarrow> (Panic e, ds\<lparr>Params := ps\<rparr>, tr)
                  | (NoReturn, ps) \<Rightarrow> (NoReturn, ds\<lparr>Params := ps\<rparr>, tr)
                  | (Ok sqlWhereMasterDetail, ps) \<Rightarrow>
                      (Ok (newlines (if sqlWhereMasterDetail \<noteq> []
                                     then ''select * from ('' @ sql @ '') t where ''
                                          @ sqlWhereMasterDetail
                                     else sql)),
                       ds\<lparr>Params := ps\<rparr>, tr))
               else
                 (Ok (newlines sql), ds,
                  tr @ [Println ''MasterFields or DetailFields field cannot be empty''])))"

text \<open>
  \<^verbatim>\<open>CreateFields\<close> of \<^verbatim>\<open>src/godata.go\<close>. The SQL parser belongs to another repository;
  \<open>select_names\<close> stands for it and for the walk over its syntax tree: for a text it gives
  a parse error, or the aliases and column names of the select expressions in order.
  \<^verbatim>\<open>Open\<close> does not look at the error \<^verbatim>\<open>CreateFields\<close> returns.
\<close>

definition CreateFields_godata :: "(string \<Rightarrow> error + string list) \<Rightarrow> DataSet \<Rightarrow> error option result \<times> DataSet" where
  "CreateFields_godata select_names ds =
     (case GetSql_godata ds of
        Panic e \<Rightarrow> (Panic e, ds)
      | NoReturn \<Rightarrow> (NoReturn, ds)
      | Ok sql \<Rightarrow>
          (case select_names sql of
             Inl err \<Rightarrow> (Ok (Some err), ds)
           | Inr names \<Rightarrow>
               (Ok None, ds\<lparr>Fields := fold (\<lambda>name fl. fst (Fields_Add fl name)) names (Fields ds)\<rparr>)))"

text \<open>
  \<^verbatim>\<open>scan\<close> of \<^verbatim>\<open>src/godata.go\<close>: for every row and every column the field is looked up or
  added and typed, and the value is stored in the row. \<open>scan_godata_row\<close> is the inner
  loop from column \<open>i\<close> on.
\<close>

function scan_godata_row ::
  "string list \<Rightarrow> ScanKind list \<Rightarrow> Variant list \<Rightarrow> nat \<Rightarrow> Field list \<Rightarrow> Row
   \<Rightarrow> unit result \<times> Field list \<times> Row" where
  "scan_godata_row names fieldTypes columns i fl row =
     (if i < length names then
        (case Fields_Add fl (names ! i) of
           (fl', k) \<Rightarrow>
             if i < length fieldTypes
             then scan_godata_row names fieldTypes columns (Suc i)
                    (fl'[k := (fl' ! k)\<lparr>FieldScanKind := Some (fieldTypes ! i),
                                        Order := int i + 1, FieldIndex := int i\<rparr>])
                    (row(strings_ToUpper (names ! i) \<mapsto>
                           (if i < length columns then columns ! i else VNil)))
             else (Panic ''index out of range'', fl', row))
      else (Ok (), fl, row))"
  by pat_completeness auto
termination
  by (relation "measure (\<lambda>(names, fieldTypes, columns, i, fl, row). length names - i)") auto

declare scan_godata_row.simps [simp del]

fun scan_godata_rows ::
  "string list \<Rightarrow> ScanKind list \<Rightarrow> Variant list list \<Rightarrow> DataSet \<Rightarrow> unit result \<times> DataSet" where
  "scan_godata_rows names fieldTypes [] ds = (Ok (), ds)"
| "scan_godata_rows names fieldTypes (columns # rest) ds =
     (case scan_godata_row names fieldTypes columns 0 (Fields ds) Map.empty of
        (Ok u, fl, row) \<Rightarrow>
          scan_godata_rows names fieldTypes rest (ds\<lparr>Fields := fl, Rows := Rows ds @ [row]\<rparr>)
      | (Panic e, fl, row) \<Rightarrow> (Panic e, ds\<lparr>Fields := fl\<rparr>)
      | (NoReturn, fl, row) \<Rightarrow> (NoReturn, ds\<lparr>Fields := fl\<rparr>))"

text \<open>
  \<^verbatim>\<open>Open\<close> and \<^verbatim>\<open>OpenContext\<close> of \<^verbatim>\<open>src/godata.go\<close> (\<open>ctx\<close> is \<open>None\<close> for \<^verbatim>\<open>Open\<close>), for a
  DataSet made by \<^verbatim>\<open>NewDataSet\<close>; the transaction is not looked at. After a failed query
  and a failed ping, a successful reopen is not followed by a second query: the function
  goes on with the nil \<^verbatim>\<open>rows\<close> of the failed query, and \<^verbatim>\<open>scan\<close> dereferences them.
\<close>

definition Open_godata ::
  "(string \<Rightarrow> error + string list) \<Rightarrow> driver \<Rightarrow> Context option \<Rightarrow> DataSet \<Rightarrow> call list
   \<Rightarrow> error option result \<times> DataSet \<times> call list" where
  "Open_godata select_names drv ctx ds tr =
     (let ds0 = ds\<lparr>Rows := [], Index := 0, Recno := 0\<rparr>;
          ds1 = (if length (Fields ds0) = 0 then snd (CreateFields_godata select_names ds0) else ds0)
      in case (if length (Fields ds0) = 0 then fst (CreateFields_godata select_names ds0) else Ok None) of
           Panic e \<Rightarrow> (Panic e, ds1, tr)
         | NoReturn \<Rightarrow> (NoReturn, ds1, tr)
         | Ok ignored \<Rightarrow>
             (case GetSqlMasterDetail_godata ds1 tr of
                (Panic e, ds2, tr1) \<Rightarrow> (Panic e, ds2, tr1)
              | (NoReturn, ds2, tr1) \<Rightarrow> (NoReturn, ds2, tr1)
              | (Ok sql, ds2, tr1) \<Rightarrow>
                  (let tr2 = log_query (Connection ds2) sql ds2 tr1
                               @ [DBQuery ctx sql (GetParams ds2)] in
                   case query drv tr2 of
                     Inr rows \<Rightarrow>
                       (case scan_godata_rows (Columns rows) (ColumnTypes rows) (Records rows) ds2 of
                          (Ok u, ds3) \<Rightarrow> (Ok None, First ds3, tr2 @ [RowsClose])
                        | (Panic e, ds3) \<Rightarrow> (Panic e, ds3, tr2 @ [RowsClose])
                        | (NoReturn, ds3) \<Rightarrow> (NoReturn, ds3, tr2))
                   | Inl err \<Rightarrow>
                       (let tr3 = tr2 @ [DBPing ctx] in
                        case ping drv tr3 of
                          Some errPing \<Rightarrow>
                            (let tr4 = tr3 @ [ConnOpen] in
                             case reopen drv tr4 of
                               Some errConn \<Rightarrow> (Ok (Some err), ds2, tr4)
                             | None \<Rightarrow> (Panic ''nil pointer dereference'', ds2, tr4))
                        | None \<Rightarrow>
                            (Ok (Some (''could not open dataset '' @ err @ [CHR 0x0A])), ds2, tr3)))))"

section \<open>ExecBatch\<close>

text \<open>The execution loop of \<^verbatim>\<open>ExecBatch\<close> (events copy) from index \<open>i\<close> on.\<close>

function ExecBatch_loop :: "driver \<Rightarrow> DataSet \<Rightarrow> int \<Rightarrow> call list \<Rightarrow> error option result \<times> call list" where
  "ExecBatch_loop drv ds i tr =
     (if 0 \<le> i \<and> i < BatchSize (Params ds) then
        (case GetParamsBatch ds (nat i) of
           Ok args \<Rightarrow>
             (let tr' = tr @ [StmtExec (Ctx ds) args] in
              case exec drv tr' of
                Some err \<Rightarrow> (Ok (Some err), tr')
              | None \<Rightarrow> ExecBatch_loop drv ds (i + 1) tr')
         | Panic e \<Rightarrow> (Panic e, tr)
         | NoReturn \<Rightarrow> (NoReturn, tr))
      else (Ok None, tr))"
  by pat_completeness auto
termination
  by (relation "measure (\<lambda>(drv, ds, i, tr). nat (BatchSize (Params ds) - i))") auto

declare ExecBatch_loop.simps [simp del]

text \<open>
  \<^verbatim>\<open>ExecBatch\<close> (events copy). The argument \<^verbatim>\<open>size\<close> (here \<open>sz\<close>) is not read by the body. The deferred
  \<^verbatim>\<open>stmt.Close()\<close> is registered before the error of the preparation is looked at; when
  the preparation fails \<^verbatim>\<open>stmt\<close> is nil and the deferred call dereferences it.
\<close>

definition ExecBatch :: "driver \<Rightarrow> int \<Rightarrow> DataSet \<Rightarrow> call list \<Rightarrow> error option result \<times> call list" where
  "ExecBatch drv sz ds tr =
     (case GetSql ds of
        Panic e \<Rightarrow> (Panic e, tr)
      | NoReturn \<Rightarrow> (NoReturn, tr)
      | Ok q \<Rightarrow>
          (let tr1 = (case Tx ds of
                        Some tx \<Rightarrow> log_query (TxConn tx) q ds tr @ [TxPrepare (Ctx ds) q]
                      | None \<Rightarrow> log_query (Connection ds) q ds tr @ [DBPrepare (Ctx ds) q]) in
           case prepare drv tr1 of
             Some err \<Rightarrow> (Panic ''nil pointer dereference'', tr1)
           | None \<Rightarrow>
               (case ExecBatch_loop drv ds 0 tr1 of
                  (r, tr2) \<Rightarrow> (r, tr2 @ [StmtClose]))))"

section \<open>Prepare\<close>

text \<open>
  The regular expression of \<^verbatim>\<open>Prepare\<close> in \<^verbatim>\<open>src/godata.go\<close> is a space, a colon and
  \<^verbatim>\<open>(\w+)\<close>. \<open>find_params\<close> is \<^verbatim>\<open>FindAllStringSubmatch\<close> with that expression, reduced to
  the submatch: the matches are taken leftmost first, each as long as possible, and the
  search goes on where the match ended. \<^verbatim>\<open>\w\<close> is an ASCII letter, a digit or an
  underscore.
\<close>

definition is_word_char :: "char \<Rightarrow> bool" where
  "is_word_char c =
     (c \<in> set ''abcdefghijklmnopqrstuvwxyzABCDEFGHIJKLMNOPQRSTUVWXYZ0123456789_'')"

function find_params :: "string \<Rightarrow> string list" where
  "find_params [] = []"
| "find_params (c # s) =
     (if c = CHR '' '' \<and> (case s of d # e # r \<Rightarrow> d = CHR '':'' \<and> is_word_char e | _ \<Rightarrow> False)
      then takeWhile is_word_char (tl s) # find_params (dropWhile is_word_char (tl s))
      else find_params s)"
  by pat_completeness auto
termination
proof (relation "measure length")
  show "wf (measure length)" by simp
next
  fix c :: char and s :: string
  have "length (dropWhile is_word_char (tl s)) \<le> length (tl s)"
    by (rule length_dropWhile_le)
  then show "(dropWhile is_word_char (tl s), c # s) \<in> measure length" by simp
next
  fix c :: char and s :: string
  show "(s, c # s) \<in> measure length" by simp
qed

declare find_params.simps [simp del]

text \<open>
  The bind-variable tokens in the words of the spec, for comparison: a token is a colon
  followed by an identifier, a non-empty run of letters, digits and underscores; the
  tokens are read from left to right, each identifier as long as possible.
\<close>

function bind_tokens_spec :: "string \<Rightarrow> string list" where
  "bind_tokens_spec [] = []"
| "bind_tokens_spec (c # s) =
     (if c = CHR '':'' \<and> (case s of e # r \<Rightarrow> is_word_char e | [] \<Rightarrow> False)
      then takeWhile is_word_char s # bind_tokens_spec (dropWhile is_word_char s)
      else bind_tokens_spec s)"
  by pat_completeness auto
termination
proof (relation "measure length")
  show "wf (measure length)" by simp
next
  fix c :: char and s :: string
  have "length (dropWhile is_word_char s) \<le> length s"
    by (rule length_dropWhile_le)
  then show "(dropWhile is_word_char s, c # s) \<in> measure length" by simp
next
  fix c :: char and s :: string
  show "(s, c # s) \<in> measure length" by simp
qed

declare bind_tokens_spec.simps [simp del]

text \<open>
  Whether every token of a text stands right after a space; \<open>after_space\<close> tells whether
  the text itself does.
\<close>

fun tokens_follow_space :: "bool \<Rightarrow> string \<Rightarrow> bool" where
  "tokens_follow_space after_space [] = True"
| "tokens_follow_space after_space (c # s) =
     ((if c = CHR '':'' \<and> (case s of e # r \<Rightarrow> is_word_char e | [] \<Rightarrow> False)
       then after_space else True)
      \<and> tokens_follow_space (c = CHR '' '') s)"

text \<open>
  The parameter built for a discovered name: \<^verbatim>\<open>&Param{Name: paramName, Value:
  &Variant{Value: ""}}\<close>; its direction is the zero value, an input parameter.
\<close>

definition discovered_param :: "string \<Rightarrow> Param" where
  "discovered_param paramName =
     \<lparr>ParamName = paramName, ParamValue = VStr [], ParamTyp = IN, ParamValues = []\<rparr>"

text \<open>The loop of \<^verbatim>\<open>Prepare\<close> (both copies): every name found is appended.\<close>

fun Prepare_loop :: "string list \<Rightarrow> Params \<Rightarrow> Params" where
  "Prepare_loop [] ps = ps"
| "Prepare_loop (paramName # matches) ps =
     Prepare_loop matches (ps\<lparr>List := List ps @ [discovered_param paramName]\<rparr>)"

text \<open>\<^verbatim>\<open>Prepare\<close> of \<^verbatim>\<open>src/godata.go\<close>.\<close>

definition Prepare_godata :: "DataSet \<Rightarrow> DataSet result" where
  "Prepare_godata ds =
     rbind (GetSql_godata ds)
       (\<lambda>sql. Ok (ds\<lparr>Params := Prepare_loop (find_params sql) (Params ds)\<rparr>))"

text \<open>
  \<^verbatim>\<open>Prepare\<close> of the events copy. \<^verbatim>\<open>preprocesssql.PreprocessSQL\<close> belongs to another
  repository; it is a parameter here, giving for a text either an error or the names of
  \<^verbatim>\<open>Params.Items\<close> in order.
\<close>

definition Prepare :: "(string \<Rightarrow> error + string list) \<Rightarrow> DataSet \<Rightarrow> (error option \<times> DataSet) result" where
  "Prepare PreprocessSQL ds =
     rbind (GetSql ds)
       (\<lambda>sql. case PreprocessSQL sql of
                 Inl err \<Rightarrow> Ok (Some err, ds)
               | Inr items \<Rightarrow> Ok (None, ds\<lparr>Params := Prepare_loop items (Params ds)\<rparr>))"

definition param_names :: "DataSet result \<Rightarrow> string list" where
  "param_names r = (case r of Ok ds \<Rightarrow> map ParamName (List (Params ds)) | Panic e \<Rightarrow> [] | NoReturn \<Rightarrow> [])"

section \<open>ToStruct\<close>

text \<open>
  The part of Go's types that \<^verbatim>\<open>ToStruct\<close> and its helpers tell apart through \<^verbatim>\<open>reflect\<close>.
  \<open>TPointer\<close>, \<open>TSlice\<close> and \<open>TArray\<close> are the unnamed pointer, slice and array types. A
  struct type has a name (empty for an unnamed struct type) and fields, each with its
  name, the value of its \<^verbatim>\<open>column\<close> tag, its \<^verbatim>\<open>Anonymous\<close> flag, whether it is exported,
  and its type. \<open>TOther\<close> is a type of any other kind, given by what \<^verbatim>\<open>Name\<close> reports for
  it (\<^verbatim>\<open>uint\<close>, \<^verbatim>\<open>Time\<close>, a named integer type, the empty text for a map); none of the
  column values of \<open>Variant\<close> can be assigned to it. Interface types and named pointer,
  slice and array types are not represented: a destination has no field of type \<^verbatim>\<open>any\<close>.
\<close>

datatype GoType =
    TInt | TInt8 | TInt16 | TInt32 | TInt64 | TFloat32 | TFloat64 | TString | TBool
  | TPointer GoType
  | TStruct string "(string \<times> string \<times> bool \<times> bool \<times> GoType) list"
  | TSlice GoType
  | TArray nat GoType
  | TOther string

text \<open>
  What a destination holds. \<open>Zero\<close> is the zero value of the destination's type (for a
  slice: nil). \<open>Converted t v\<close> is the value of type \<open>t\<close> that the accessor chosen by
  \<^verbatim>\<open>GetValue\<close> for \<open>t\<close> makes of the column value \<open>v\<close> (\<^verbatim>\<open>AsInt\<close>, \<^verbatim>\<open>AsString\<close>, ...; for a
  pointer type the address of that value); the accessors are not under src/ and are left
  symbolic. \<open>Raw v\<close> is the column value as \<^verbatim>\<open>AsValue\<close> gives it.
\<close>

datatype GoValue =
    Zero
  | Converted GoType Variant
  | Raw Variant
  | StructVal "GoValue list"
  | SliceVal "GoValue list"

text \<open>
  The argument \<^verbatim>\<open>model any\<close>: the nil interface, or a value of some type. For a pointer
  type the second component is what the pointer points to (\<open>None\<close> for a nil pointer); for
  any other type it is the value itself, which \<^verbatim>\<open>ToStruct\<close> does not look at.
\<close>

datatype Model = NilInterface | Holding GoType "GoValue option"

fun is_pointer :: "GoType \<Rightarrow> bool" where
  "is_pointer (TPointer t) = True"
| "is_pointer t = False"

fun is_slice_or_array :: "GoType \<Rightarrow> bool" where
  "is_slice_or_array (TSlice t) = True"
| "is_slice_or_array (TArray n t) = True"
| "is_slice_or_array t = False"

fun is_struct :: "GoType \<Rightarrow> bool" where
  "is_struct (TStruct name fs) = True"
| "is_struct t = False"

text \<open>\<^verbatim>\<open>reflect.Type.Name\<close>: the name of a defined type, empty for an unnamed one.\<close>

fun type_name :: "GoType \<Rightarrow> string" where
  "type_name TInt = ''int''"
| "type_name TInt8 = ''int8''"
| "type_name TInt16 = ''int16''"
| "type_name TInt32 = ''int32''"
| "type_name TInt64 = ''int64''"
| "type_name TFloat32 = ''float32''"
| "type_name TFloat64 = ''float64''"
| "type_name TString = ''string''"
| "type_name TBool = ''bool''"
| "type_name (TPointer t) = []"
| "type_name (TStruct name fs) = name"
| "type_name (TSlice t) = []"
| "type_name (TArray n t) = []"
| "type_name (TOther name) = name"

text \<open>The types listed by the type switch of \<^verbatim>\<open>GetValue\<close> (events copy), pointers apart.\<close>

fun is_listed :: "GoType \<Rightarrow> bool" where
  "is_listed TInt = True"
| "is_listed TInt8 = True"
| "is_listed TInt16 = True"
| "is_listed TInt32 = True"
| "is_listed TInt64 = True"
| "is_listed TFloat32 = True"
| "is_listed TFloat64 = True"
| "is_listed TString = True"
| "is_listed TBool = True"
| "is_listed t = False"

text \<open>
  \<^verbatim>\<open>GetValue\<close> (events copy), by the type of the destination field. A listed type gets
  the value of its accessor, converted to the field's type; the accessors are taken to
  return the type in their name. Both \<^verbatim>\<open>*float32\<close> and \<^verbatim>\<open>*float64\<close> take the address of
  the \<^verbatim>\<open>float64\<close> of \<^verbatim>\<open>AsFloat64\<close>, and \<^verbatim>\<open>Convert\<close> panics on a \<^verbatim>\<open>*float64\<close> asked to
  become a \<^verbatim>\<open>*float32\<close>. Any other type gets \<^verbatim>\<open>field.AsValue()\<close>; \<open>None\<close> is a nil
  \<^verbatim>\<open>fieldValue\<close>, which only this default case can give (a nil column).
\<close>

fun GetValue :: "Variant \<Rightarrow> GoType \<Rightarrow> GoValue option result" where
  "GetValue v (TPointer t) =
     (if t = TFloat32
      then Panic ''reflect.Value.Convert: value of type *float64 cannot be converted to type *float32''
      else if is_listed t then Ok (Some (Converted (TPointer t) v))
      else if v = VNil then Ok None else Ok (Some (Raw v)))"
| "GetValue v t =
     (if is_listed t then Ok (Some (Converted t v))
      else if v = VNil then Ok None else Ok (Some (Raw v)))"

text \<open>
  \<^verbatim>\<open>rf.Set(reflect.ValueOf(fieldValue))\<close> panics unless the value is assignable to the
  field: a converted value has the type it was converted to; a raw column value is
  assignable to none of the types represented here.
\<close>

fun assignable :: "GoType \<Rightarrow> GoValue \<Rightarrow> bool" where
  "assignable t (Converted t' v) = (t' = t)"
| "assignable t x = False"

definition set_field :: "GoType \<Rightarrow> GoValue \<Rightarrow> GoValue option \<Rightarrow> unit result \<times> GoValue" where
  "set_field t cur fieldValue =
     (case fieldValue of
        None \<Rightarrow> (Ok (), cur)
      | Some x \<Rightarrow> if assignable t x then (Ok (), x)
                  else (Panic ''reflect.Set: value is not assignable'', cur))"

text \<open>
  Modelled from the spec: \<^verbatim>\<open>Field.IsNotNull\<close> is not under src/; the source column is not
  null when the current row holds a value other than nil under the name.
\<close>

definition FieldByName_IsNotNull :: "DataSet \<Rightarrow> string \<Rightarrow> bool" where
  "FieldByName_IsNotNull ds fieldName = (FieldByName_AsValue ds fieldName \<noteq> VNil)"

text \<open>
  The two statements that both branches of \<^verbatim>\<open>toStructUniqResult\<close> share:
  \<^verbatim>\<open>fieldValue = ds.GetValue(ds.FieldByName(fieldName), modelValue.Field(i).Interface())\<close>
  and the assignment of a \<^verbatim>\<open>fieldValue\<close> that is not nil. \<^verbatim>\<open>Interface\<close> panics on a value
  obtained from an unexported field.
\<close>

definition get_and_set :: "DataSet \<Rightarrow> string \<Rightarrow> bool \<Rightarrow> GoType \<Rightarrow> GoValue \<Rightarrow> unit result \<times> GoValue" where
  "get_and_set ds fieldName exported t cur =
     (if \<not> exported
      then (Panic ''reflect.Value.Interface: cannot return value obtained from unexported field or method'', cur)
      else (case GetValue (FieldByName_AsValue ds fieldName) t of
              Ok fieldValue \<Rightarrow> set_field t cur fieldValue
            | Panic e \<Rightarrow> (Panic e, cur)
            | NoReturn \<Rightarrow> (NoReturn, cur)))"

text \<open>
  The body of the loop of \<^verbatim>\<open>toStructUniqResult\<close> for one field of the destination, whose
  present value is \<open>cur\<close>: it gives the field's value afterwards.
\<close>

definition bind_field ::
  "DataSet \<Rightarrow> string \<times> string \<times> bool \<times> bool \<times> GoType \<Rightarrow> GoValue \<Rightarrow> unit result \<times> GoValue" where
  "bind_field ds field cur =
     (case field of (name, tag, anonymous, exported, t) \<Rightarrow>
        if \<not> is_slice_or_array t then
          (let fieldName = (if tag = [] then name else tag) in
           if anonymous then (Ok (), cur)
           else if is_pointer t then
             (if FieldByName_IsNotNull ds fieldName
              then get_and_set ds fieldName exported t cur
              else (Ok (), cur))
           else get_and_set ds fieldName exported t cur)
        else (Ok (), cur))"

fun bind_fields ::
  "DataSet \<Rightarrow> (string \<times> string \<times> bool \<times> bool \<times> GoType) list \<Rightarrow> GoValue list
     \<Rightarrow> unit result \<times> GoValue list" where
  "bind_fields ds (f # fs) (c # cs) =
     (case bind_field ds f c of
        (Ok u, c') \<Rightarrow> (case bind_fields ds fs cs of (r, cs') \<Rightarrow> (r, c' # cs'))
      | (Panic e, c') \<Rightarrow> (Panic e, c' # cs)
      | (NoReturn, c') \<Rightarrow> (NoReturn, c' # cs))"
| "bind_fields ds fs cs = (Ok (), cs)"

text \<open>The values of the \<open>n\<close> fields of a struct value; the zero struct has zero fields.\<close>

definition field_values :: "GoValue \<Rightarrow> nat \<Rightarrow> GoValue list" where
  "field_values v n =
     (case v of StructVal vs \<Rightarrow> if length vs = n then vs else replicate n Zero
              | _ \<Rightarrow> replicate n Zero)"

text \<open>
  \<^verbatim>\<open>toStructUniqResult\<close> (events copy): the error it returns is always nil; \<^verbatim>\<open>NumField\<close>
  panics on a value that is not a struct.
\<close>

fun toStructUniqResult :: "DataSet \<Rightarrow> GoType \<Rightarrow> GoValue \<Rightarrow> unit result \<times> GoValue" where
  "toStructUniqResult ds (TStruct name fs) v =
     (case bind_fields ds fs (field_values v (length fs)) of (r, vs) \<Rightarrow> (r, StructVal vs))"
| "toStructUniqResult ds t v =
     (Panic ''reflect: call of reflect.Value.NumField on a value that is not a struct'', v)"

text \<open>
  The loop of \<^verbatim>\<open>toStructList\<close> (events copy) over the rows from the cursor on, for a
  destination that is a slice (\<open>is_slice\<close>) or an array of \<open>modelType\<close>: a new zero value
  of the element type is bound (twice over, to the same effect) and appended;
  \<^verbatim>\<open>reflect.Append\<close> panics when the destination is an array.
\<close>

definition elems :: "GoValue \<Rightarrow> GoValue list" where
  "elems v = (case v of SliceVal xs \<Rightarrow> xs | _ \<Rightarrow> [])"

function toStructList_loop ::
  "DataSet \<Rightarrow> GoType \<Rightarrow> bool \<Rightarrow> GoValue \<Rightarrow> unit result \<times> GoValue \<times> DataSet" where
  "toStructList_loop ds modelType is_slice modelValue =
     (if \<not> Eof ds then
        (case toStructUniqResult ds modelType Zero of
           (Ok u, newModel) \<Rightarrow>
             if is_slice
             then toStructList_loop (Next ds) modelType is_slice
                    (SliceVal (elems modelValue @ [newModel]))
             else (Panic ''reflect: call of reflect.Append on array Value'', modelValue, ds)
         | (Panic e, newModel) \<Rightarrow> (Panic e, modelValue, ds)
         | (NoReturn, newModel) \<Rightarrow> (NoReturn, modelValue, ds))
      else (Ok (), modelValue, ds))"
  by pat_completeness auto
termination
  by (relation "measure (\<lambda>(ds, t, a, v). nat (Count ds + 1 - Recno ds))")
     (auto simp: Eof_def Next_def Count_def)

declare toStructList_loop.simps [simp del]

text \<open>\<^verbatim>\<open>toStructList\<close> (events copy): the loop, from the first row on.\<close>

definition toStructList ::
  "DataSet \<Rightarrow> GoType \<Rightarrow> bool \<Rightarrow> GoValue \<Rightarrow> unit result \<times> GoValue \<times> DataSet" where
  "toStructList ds modelType is_slice modelValue =
     toStructList_loop (First ds) modelType is_slice modelValue"

definition nil_error :: "unit result \<Rightarrow> error option result" where
  "nil_error r = (case r of Ok u \<Rightarrow> Ok None | Panic e \<Rightarrow> Panic e | NoReturn \<Rightarrow> NoReturn)"

text \<open>
  \<^verbatim>\<open>ToStruct\<close> (events copy; \<^verbatim>\<open>src/godata.go\<close> differs in the capital of the second
  message). It gives the returned error, what the argument holds afterwards, and the
  DataSet. \<^verbatim>\<open>reflect.TypeOf\<close> of the nil interface is nil, on which \<^verbatim>\<open>Kind\<close> panics; the
  \<^verbatim>\<open>Elem\<close> of a nil pointer is the zero \<^verbatim>\<open>Value\<close>, on which \<^verbatim>\<open>NumField\<close> and \<^verbatim>\<open>Type\<close> panic.
\<close>

fun ToStruct :: "DataSet \<Rightarrow> Model \<Rightarrow> error option result \<times> GoValue option \<times> DataSet" where
  "ToStruct ds NilInterface = (Panic ''nil pointer dereference'', None, ds)"
| "ToStruct ds (Holding (TPointer modelType) d) =
     (case modelType of
        TStruct name fs \<Rightarrow>
          (case d of
             None \<Rightarrow> (Panic ''reflect: call of reflect.Value.NumField on zero Value'', d, ds)
           | Some modelValue \<Rightarrow>
               (case toStructUniqResult ds modelType modelValue of
                  (r, v) \<Rightarrow> (nil_error r, Some v, ds)))
      | TSlice t \<Rightarrow>
          (case d of
             None \<Rightarrow> (Panic ''reflect: call of reflect.Value.Type on zero Value'', d, ds)
           | Some modelValue \<Rightarrow>
               (case toStructList ds t True modelValue of
                  (r, v, ds') \<Rightarrow> (nil_error r, Some v, ds')))
      | TArray n t \<Rightarrow>
          (case d of
             None \<Rightarrow> (Panic ''reflect: call of reflect.Value.Type on zero Value'', d, ds)
           | Some modelValue \<Rightarrow>
               (case toStructList ds t False modelValue of
                  (r, v, ds') \<Rightarrow> (nil_error r, Some v, ds')))
      | _ \<Rightarrow> (Ok (Some ''the interface is not a slice, array or struct''), d, ds))"
| "ToStruct ds (Holding t d) =
     (Ok (Some (''the variable '' @ type_name t @ '' is not a pointer.'')), d, ds)"

section \<open>Batches as calls\<close>

text \<open>
  The arguments of execution \<open>i\<close> of a batch when every parameter has a value at index
  \<open>i\<close>, and the executions \<open>0, ..., k - 1\<close> as calls.
\<close>

definition batch_args :: "DataSet \<Rightarrow> nat \<Rightarrow> bound list" where
  "batch_args ds i = map (\<lambda>p. bind_param p (ParamValues p ! i)) (List (Params ds))"

definition batch_calls :: "DataSet \<Rightarrow> nat \<Rightarrow> nat \<Rightarrow> call list" where
  "batch_calls ds i k = map (\<lambda>j. StmtExec (Ctx ds) (batch_args ds j)) [i..<k]"

text \<open>
  The calls of \<^verbatim>\<open>ExecBatch\<close> up to the preparation of the statement \<open>q\<close>: the logging
  when it is switched on, and the preparation on the transaction or on the connection.
\<close>

definition prepare_calls :: "DataSet \<Rightarrow> string \<Rightarrow> call list \<Rightarrow> call list" where
  "prepare_calls ds q tr =
     (case Tx ds of
        Some tx \<Rightarrow> log_query (TxConn tx) q ds tr @ [TxPrepare (Ctx ds) q]
      | None \<Rightarrow> log_query (Connection ds) q ds tr @ [DBPrepare (Ctx ds) q])"

section \<open>Counting calls, and example databases\<close>

fun is_reopen :: "call \<Rightarrow> bool" where
  "is_reopen ConnOpen = True"
| "is_reopen c = False"

fun is_query :: "call \<Rightarrow> bool" where
  "is_query (DBQuery ctx q args) = True"
| "is_query (TxQuery ctx q args) = True"
| "is_query (TxConnDBQuery ctx q args) = True"
| "is_query c = False"

fun is_exec :: "call \<Rightarrow> bool" where
  "is_exec (StmtExec ctx args) = True"
| "is_exec c = False"

fun is_prepare :: "call \<Rightarrow> bool" where
  "is_prepare (DBPrepare ctx q) = True"
| "is_prepare (TxPrepare ctx q) = True"
| "is_prepare c = False"

definition count_calls :: "(call \<Rightarrow> bool) \<Rightarrow> call list \<Rightarrow> nat" where
  "count_calls P tr = length (filter P tr)"

text \<open>A database that is down but answers the ping.\<close>

definition db_down_ping_ok :: driver where
  "db_down_ping_ok =
     \<lparr>query = (\<lambda>tr. Inl ''down''), ping = (\<lambda>tr. None), reopen = (\<lambda>tr. None),
      prepare = (\<lambda>tr. None), exec = (\<lambda>tr. None)\<rparr>"

text \<open>A database whose queries fail until the connection has been reopened.\<close>

definition db_reconnects :: driver where
  "db_reconnects =
     \<lparr>query = (\<lambda>tr. if ConnOpen \<in> set tr
                     then Inr \<lparr>Columns = [''id''], ColumnTypes = [KInt],
                               Records = [[VInt 1], [VInt 2]]\<rparr>
                     else Inl ''down''),
      ping = (\<lambda>tr. Some ''no route''), reopen = (\<lambda>tr. None),
      prepare = (\<lambda>tr. None), exec = (\<lambda>tr. None)\<rparr>"

text \<open>A DataSet holding the two rows of an earlier successful \<^verbatim>\<open>Open\<close>, on its second row.\<close>

definition opened_before :: DataSet where
  "opened_before =
     (AddSql (NewDataSet \<lparr>log = False, Dialect = OtherDialect\<rparr>) ''select id from t'')
       \<lparr>Rows := [[''ID'' \<mapsto> VInt 1], [''ID'' \<mapsto> VInt 2]], Index := 1, Recno := 2\<rparr>"

text \<open>Two DataSets on a PostgreSQL connection, with the parameters \<open>a, b\<close> and \<open>a\<close>.\<close>

definition input_param :: "string \<Rightarrow> Variant \<Rightarrow> Param" where
  "input_param name v = \<lparr>ParamName = name, ParamValue = v, ParamTyp = IN, ParamValues = []\<rparr>"

definition pg_params_a_b :: DataSet where
  "pg_params_a_b =
     (NewDataSet \<lparr>log = False, Dialect = POSTGRESQL\<rparr>)
       \<lparr>Params := \<lparr>List = [input_param ''a'' (VInt 1), input_param ''b'' (VInt 2)],
                   BatchSize = 0\<rparr>\<rparr>"

definition pg_params_a :: DataSet where
  "pg_params_a =
     (NewDataSet \<lparr>log = False, Dialect = POSTGRESQL\<rparr>)
       \<lparr>Params := \<lparr>List = [input_param ''a'' (VInt 1)], BatchSize = 0\<rparr>\<rparr>"

text \<open>
  Master-detail examples. The master is on a row with \<open>CODE = 7\<close> and \<open>ID = 3\<close>; the
  detail SQL is \<open>select * from t\<close>.
\<close>

definition master_on_row :: MasterView where
  "master_on_row = \<lparr>MasterRows = [[''CODE'' \<mapsto> VInt 7, ''ID'' \<mapsto> VInt 3]], MasterIndex = 0\<rparr>"

definition detail_of :: "string list \<Rightarrow> string list \<Rightarrow> DataSet" where
  "detail_of mf df =
     (AddSql (NewDataSet \<lparr>log = False, Dialect = OtherDialect\<rparr>) ''select * from t'')
       \<lparr>MasterSource := \<lparr>DataSource = Some master_on_row, MasterFields = mf, DetailFields = df\<rparr>\<rparr>"

text \<open>
  Batch examples: a statement with one parameter \<open>x\<close> holding three batch values, a
  database on which everything succeeds, and one whose second execution fails.
\<close>

definition batch_of_three :: DataSet where
  "batch_of_three =
     (AddSql (NewDataSet \<lparr>log = False, Dialect = OtherDialect\<rparr>) ''insert into t values (:x)'')
       \<lparr>Params := \<lparr>List = [\<lparr>ParamName = ''x'', ParamValue = VInt 0, ParamTyp = IN,
                                ParamValues = [VInt 10, VInt 20, VInt 30]\<rparr>],
                   BatchSize = 3\<rparr>\<rparr>"

definition scalar_only :: DataSet where
  "scalar_only =
     (AddSql (NewDataSet \<lparr>log = False, Dialect = OtherDialect\<rparr>) ''insert into t values (:x)'')
       \<lparr>Params := \<lparr>List = [input_param ''x'' (VInt 5)], BatchSize = 1\<rparr>\<rparr>"

definition db_ok :: driver where
  "db_ok =
     \<lparr>query = (\<lambda>tr. Inr \<lparr>Columns = [], ColumnTypes = [], Records = []\<rparr>),
      ping = (\<lambda>tr. None), reopen = (\<lambda>tr. None),
      prepare = (\<lambda>tr. None), exec = (\<lambda>tr. None)\<rparr>"

definition db_second_exec_fails :: driver where
  "db_second_exec_fails =
     \<lparr>query = (\<lambda>tr. Inr \<lparr>Columns = [], ColumnTypes = [], Records = []\<rparr>),
      ping = (\<lambda>tr. None), reopen = (\<lambda>tr. None),
      prepare = (\<lambda>tr. None),
      exec = (\<lambda>tr. if count_calls is_exec tr = 2 then Some ''duplicate key'' else None)\<rparr>"

text \<open>A DataSet whose parameter \<open>x\<close> is registered and occurs twice in the SQL.\<close>

definition registered_x :: DataSet where
  "registered_x =
     (AddSql (NewDataSet \<lparr>log = False, Dialect = OtherDialect\<rparr>)
        ''select * from t where a = :x and b = :x'')
       \<lparr>Params := SetInputParam NewParams ''x'' (VInt 1)\<rparr>"

text \<open>A DataSet without parameters whose SQL names \<open>y\<close> and \<open>z\<close>.\<close>

definition unregistered_y_z :: DataSet where
  "unregistered_y_z =
     AddSql (NewDataSet \<lparr>log = False, Dialect = OtherDialect\<rparr>)
       ''update t set a = :y where id = :z''"

text \<open>
  Binding examples: a DataSet on its only row \<open>ID = 5, NAME = Ann\<close>, a DataSet without
  rows, and the record type \<open>Person\<close> with the fields \<open>ID int\<close> and \<open>Name string\<close>, the
  latter tagged with the column \<open>NAME\<close>.
\<close>

definition on_row_ann :: DataSet where
  "on_row_ann =
     (NewDataSet \<lparr>log = False, Dialect = OtherDialect\<rparr>)
       \<lparr>Rows := [[''ID'' \<mapsto> VInt 5, ''NAME'' \<mapsto> VStr ''Ann'']], Index := 0, Recno := 1\<rparr>"

definition no_rows :: DataSet where
  "no_rows = NewDataSet \<lparr>log = False, Dialect = OtherDialect\<rparr>"

definition Person :: GoType where
  "Person = TStruct ''Person''
              [(''ID'', [], False, True, TInt), (''Name'', ''NAME'', False, True, TString)]"

section \<open>Properties of the cursor\<close>

lemma visit_Eof: "Eof ds \<Longrightarrow> visit ds = []"
  by (subst visit.simps) simp

lemma visit_step: "\<not> Eof ds \<Longrightarrow> visit ds = ds # visit (Next ds)"
  by (subst visit.simps) simp

lemma finish_Eof: "Eof ds \<Longrightarrow> finish ds = ds"
  by (subst finish.simps) simp

lemma finish_step: "\<not> Eof ds \<Longrightarrow> finish ds = finish (Next ds)"
  by (subst finish.simps) simp

lemma Next_step: "\<not> Eof ds \<Longrightarrow> Next ds = ds\<lparr>Index := Index ds + 1, Recno := Recno ds + 1\<rparr>"
  by (simp add: Next_def)

lemma Count_Next: "Count (Next ds) = Count ds"
  by (simp add: Count_def Next_def)

lemma visit_length:
  "Recno ds \<le> Count ds + 1 \<Longrightarrow> Count ds \<noteq> 0 \<Longrightarrow>
   length (visit ds) = nat (Count ds + 1 - Recno ds)"
proof (induction ds rule: visit.induct)
  case (1 ds)
  show ?case
  proof (cases "Eof ds")
    case True
    with "1.prems" show ?thesis by (auto simp: Eof_def visit_Eof)
  next
    case False
    note n = Next_step[OF False]
    from False have le: "Recno ds \<le> Count ds" by (auto simp: Eof_def)
    have a: "Recno (Next ds) \<le> Count (Next ds) + 1"
      using le by (simp add: Count_Next) (simp add: n)
    have b: "Count (Next ds) \<noteq> 0" using "1.prems" by (simp add: Count_Next)
    have r: "Recno (Next ds) = Recno ds + 1" by (simp add: n)
    from "1.IH"[OF False a b]
    have "length (visit (Next ds)) = nat (Count ds + 1 - (Recno ds + 1))"
      by (simp add: Count_Next r)
    with le show ?thesis by (simp add: visit_step[OF False])
  qed
qed

lemma visit_inv:
  "Recno ds = Index ds + 1 \<Longrightarrow> \<forall>s \<in> set (visit ds). Recno s = Index s + 1 \<and> \<not> Eof s"
proof (induction ds rule: visit.induct)
  case (1 ds)
  show ?case
  proof (cases "Eof ds")
    case True
    then show ?thesis by (simp add: visit_Eof)
  next
    case False
    note n = Next_step[OF False]
    have "Recno (Next ds) = Index (Next ds) + 1" using "1.prems" by (simp add: n)
    from "1.IH"[OF False this] "1.prems" False show ?thesis
      by (simp add: visit_step[OF False])
  qed
qed

lemma visit_Index:
  "map Index (visit ds) = map (\<lambda>k. Index ds + int k) [0..<length (visit ds)]"
proof (induction ds rule: visit.induct)
  case (1 ds)
  show ?case
  proof (cases "Eof ds")
    case True
    then show ?thesis by (simp add: visit_Eof)
  next
    case False
    note n = Next_step[OF False]
    note v = visit_step[OF False]
    have i: "Index (Next ds) = Index ds + 1" by (simp add: n)
    have "map (\<lambda>k. Index ds + int k) [0..<Suc (length (visit (Next ds)))]
          = Index ds # map ((\<lambda>k. Index ds + int k) \<circ> Suc) [0..<length (visit (Next ds))]"
      by (simp only: upt_conv_Cons[of 0 "Suc _"] zero_less_Suc map_Suc_upt[symmetric]
            list.map map_map) simp
    also have "map ((\<lambda>k. Index ds + int k) \<circ> Suc) [0..<length (visit (Next ds))]
               = map Index (visit (Next ds))"
      using "1.IH"[OF False] by (simp add: i comp_def add.assoc)
    finally show ?thesis by (simp add: v)
  qed
qed

lemma finish_inv:
  "Recno ds = Index ds + 1 \<Longrightarrow>
   Eof (finish ds) \<and> Recno (finish ds) = Index (finish ds) + 1 \<and> Rows (finish ds) = Rows ds"
proof (induction ds rule: finish.induct)
  case (1 ds)
  show ?case
  proof (cases "Eof ds")
    case True
    with "1.prems" show ?thesis by (simp add: finish_Eof)
  next
    case False
    note n = Next_step[OF False]
    have "Recno (Next ds) = Index (Next ds) + 1" using "1.prems" by (simp add: n)
    from "1.IH"[OF False this] show ?thesis
      by (simp add: finish_step[OF False]) (simp add: n)
  qed
qed

text \<open>
  Claim C8. For every non-empty row set, after \<^verbatim>\<open>First\<close> the loop ``while not \<^verbatim>\<open>Eof\<close>:
  visit the row, call \<^verbatim>\<open>Next\<close>'' runs its body exactly \<^verbatim>\<open>Count()\<close> times, at the indices
  0, 1, ..., Count - 1 in this order, and ends in a state where \<^verbatim>\<open>Eof\<close> holds; the
  invariant \<open>Recno = Index + 1\<close> holds after \<^verbatim>\<open>First\<close>, in every visited state and in the
  final state.
\<close>

theorem next_until_eof_visits_count_rows:
  assumes "Rows ds \<noteq> []"
  shows "int (length (visit (First ds))) = Count ds
       \<and> map Index (visit (First ds)) = map int [0..<length (Rows ds)]
       \<and> (\<forall>s \<in> set (visit (First ds)). Recno s = Index s + 1 \<and> \<not> Eof s)
       \<and> Recno (First ds) = Index (First ds) + 1
       \<and> Eof (finish (First ds))
       \<and> Recno (finish (First ds)) = Index (finish (First ds)) + 1
       \<and> Count (finish (First ds)) = Count ds"
proof -
  have f: "First ds = ds\<lparr>Index := 0, Recno := 1\<rparr>"
    using assms by (simp add: First_def Count_def)
  have c: "Count (First ds) = Count ds" by (simp add: f Count_def)
  have r: "Recno (First ds) = Index (First ds) + 1" by (simp add: f)
  have r1: "Recno (First ds) = 1" by (simp add: f)
  have i0: "Index (First ds) = 0" by (simp add: f)
  have cn: "Count ds \<noteq> 0" using assms by (simp add: Count_def)
  have len: "length (visit (First ds)) = length (Rows ds)"
    using visit_length[of "First ds"] cn by (simp add: c r1) (simp add: Count_def)
  have len': "int (length (visit (First ds))) = Count ds"
    by (simp add: len Count_def)
  have idx: "map Index (visit (First ds)) = map int [0..<length (Rows ds)]"
    using visit_Index[of "First ds"] by (simp add: len i0)
  have fin: "Count (finish (First ds)) = Count ds"
    using finish_inv[OF r] by (simp add: Count_def f)
  show ?thesis using len' idx visit_inv[OF r] finish_inv[OF r] r fin
    by blast
qed

theorem next_until_eof_visits_count_rows_witness:
  "Rows ((NewDataSet \<lparr>log = False, Dialect = OtherDialect\<rparr>)
           \<lparr>Rows := [Map.empty, Map.empty, Map.empty]\<rparr>) \<noteq> []
   \<and> length (visit (First ((NewDataSet \<lparr>log = False, Dialect = OtherDialect\<rparr>)
           \<lparr>Rows := [Map.empty, Map.empty, Map.empty]\<rparr>))) = 3
   \<and> map Index (visit (First ((NewDataSet \<lparr>log = False, Dialect = OtherDialect\<rparr>)
           \<lparr>Rows := [Map.empty, Map.empty, Map.empty]\<rparr>))) = [0, 1, 2]"
  using next_until_eof_visits_count_rows
    [of "(NewDataSet \<lparr>log = False, Dialect = OtherDialect\<rparr>)
           \<lparr>Rows := [Map.empty, Map.empty, Map.empty]\<rparr>"]
  by (simp add: Count_def upt_rec)

section \<open>Properties of Close\<close>

text \<open>
  Claim C3, as stated, fails: \<^verbatim>\<open>Close\<close> calls \<^verbatim>\<open>ds.Sql.Clear()\<close>, so the SQL text does not
  survive it. After one fragment is added, \<^verbatim>\<open>Close\<close> leaves a different (empty) buffer.
\<close>

theorem close_keeps_sql_counterexample:
  "Sql (Close (AddSql (NewDataSet \<lparr>log = False, Dialect = OtherDialect\<rparr>) ''select 1''))
   \<noteq> Sql (AddSql (NewDataSet \<lparr>log = False, Dialect = OtherDialect\<rparr>) ''select 1'')"
  by (simp add: Close_def AddSql_def NewDataSet_def Strings_Add_def Strings_Clear_def)

text \<open>
  Claim C3, amended. \<^verbatim>\<open>Close\<close> discards the rows, parameters, macros and master-source
  state, resets the cursor to \<open>Index = Recno = 0\<close> and also clears the SQL text buffer;
  the separate variant \<^verbatim>\<open>CloseNoClearSQL\<close> does the same but leaves the SQL text buffer
  unchanged. Neither touches the connection, the transaction or the context.
\<close>

theorem close_clears_sql_and_variant_keeps_it:
  "Rows (Close ds) = [] \<and> Params (Close ds) = NewParams \<and> Macros (Close ds) = NewMacros
   \<and> MasterSource (Close ds) = NewMasterSource
   \<and> Index (Close ds) = 0 \<and> Recno (Close ds) = 0
   \<and> Sql (Close ds) = [] \<and> Strings_Text (Sql (Close ds)) = []
   \<and> Rows (CloseNoClearSQL ds) = [] \<and> Params (CloseNoClearSQL ds) = NewParams
   \<and> Macros (CloseNoClearSQL ds) = NewMacros
   \<and> MasterSource (CloseNoClearSQL ds) = NewMasterSource
   \<and> Index (CloseNoClearSQL ds) = 0 \<and> Recno (CloseNoClearSQL ds) = 0
   \<and> Sql (CloseNoClearSQL ds) = Sql ds
   \<and> Close ds = (CloseNoClearSQL ds)\<lparr>Sql := []\<rparr>
   \<and> Connection (Close ds) = Connection ds \<and> Tx (Close ds) = Tx ds \<and> Ctx (Close ds) = Ctx ds"
  by (simp add: Close_def CloseNoClearSQL_def Strings_Clear_def Strings_Text_def)

section \<open>Properties of the placeholder translation\<close>

lemma strings_Index_bound:
  "strings_Index s p = Some i \<Longrightarrow> i + length p \<le> length s"
proof (induction s arbitrary: i)
  case Nil
  then show ?case by (simp split: if_splits)
next
  case (Cons c s)
  show ?case
  proof (cases "take (length p) (c # s) = p")
    case True
    then have "length (take (length p) (c # s)) = length p" by simp
    then have "length p \<le> length (c # s)" by (simp add: min_def split: if_splits)
    with True Cons.prems show ?thesis by simp
  next
    case False
    with Cons.prems obtain k where "strings_Index s p = Some k" "i = Suc k" by auto
    with Cons.IH[of k] show ?thesis by simp
  qed
qed

lemma strings_Index_match:
  "strings_Index s p = Some i \<Longrightarrow> take (length p) (drop i s) = p"
proof (induction s arbitrary: i)
  case Nil
  then show ?case by (simp split: if_splits)
next
  case (Cons c s)
  show ?case
  proof (cases "take (length p) (c # s) = p")
    case True
    with Cons.prems show ?thesis by simp
  next
    case False
    with Cons.prems obtain k where "strings_Index s p = Some k" "i = Suc k" by auto
    with Cons.IH[of k] show ?thesis by simp
  qed
qed

lemma rewrite_token_no_match:
  "strings_Index s p = None \<Longrightarrow> rewrite_token p n s = s"
  by (induction s) (auto split: if_splits)

lemma rewrite_token_skip:
  "strings_Index s p = Some i \<Longrightarrow>
   rewrite_token p n s = take i s @ rewrite_token p n (drop i s)"
proof (induction s arbitrary: i)
  case Nil
  then show ?case by (simp split: if_splits)
next
  case (Cons c s)
  show ?case
  proof (cases "take (length p) (c # s) = p")
    case True
    with Cons.prems show ?thesis by simp
  next
    case False
    with Cons.prems obtain k where k: "strings_Index s p = Some k" "i = Suc k" by auto
    from Cons.IH[OF k(1)] False k(2) show ?thesis by simp
  qed
qed

lemma rewrite_token_match:
  assumes "p \<noteq> []" "take (length p) s = p"
  shows "rewrite_token p n s =
           (if length s = length p \<or> s ! length p \<in> set delimiters
            then ''$'' @ showInt n else p)
           @ rewrite_token p n (drop (length p) s)"
proof -
  from assms(2) have "length (take (length p) s) = length p" by simp
  then have le: "length p \<le> length s" by (simp add: min_def split: if_splits)
  obtain a ps where p: "p = a # ps" using assms(1) by (cases p) auto
  show ?thesis
  proof (cases "drop (length p) s")
    case Nil
    then have len: "length s = length p" using le by simp
    then have sp: "s = p" using assms(2) by simp
    show ?thesis unfolding sp p by simp
  next
    case (Cons d rest)
    then have lt: "length p < length s" by (metis drop_eq_Nil2 leI list.distinct(1))
    have nth: "s ! length p = d" using Cons lt by (metis Cons_nth_drop_Suc list.inject)
    obtain c cs where s: "s = c # cs" using lt by (cases s) auto
    have t: "take (length p) (c # cs) = p" using assms(2) s by simp
    have dr: "drop (length p) (c # cs) = d # rest" using Cons s by simp
    have "rewrite_token p n (c # cs)
          = (if d \<in> set delimiters then ''$'' @ showInt n else p) @ rewrite_token p n (d # rest)"
      by (subst rewrite_token.simps) (simp only: t dr assms(1) list.case simp_thms if_True)
    then show ?thesis using lt nth by (simp add: s[symmetric] Cons)
  qed
qed

text \<open>
  \<^verbatim>\<open>replaceParamPG\<close> returns for every non-empty token, and what it returns is the scan of
  the spec.
\<close>

lemma replaceParamPG_returns:
  "p \<noteq> [] \<Longrightarrow> replaceParamPG s p n = Some (rewrite_token p n s, n)"
proof (induction "length s" arbitrary: s rule: less_induct)
  case less
  show ?case
  proof (cases "strings_Index s p")
    case None
    then show ?thesis by (subst replaceParamPG.simps) (simp add: rewrite_token_no_match)
  next
    case (Some i)
    note b = strings_Index_bound[OF Some]
    note m = strings_Index_match[OF Some]
    have "length (drop (i + length p) s) < length s" using b less.prems by (cases p) auto
    from less.hyps[OF this less.prems]
    have ih: "replaceParamPG (drop (i + length p) s) p n
              = Some (rewrite_token p n (drop (i + length p) s), n)" .
    have d: "drop (length p) (drop i s) = drop (i + length p) s" by (simp add: add.commute)
    have c: "(int i = int (length s) - int (length p) \<or> s ! (i + length p) \<in> set delimiters)
           = (length (drop i s) = length p \<or> drop i s ! length p \<in> set delimiters)"
      using b by (auto simp: add.commute)
    show ?thesis
      apply (subst replaceParamPG.simps)
      apply (simp add: Some ih rewrite_token_skip[OF Some] rewrite_token_match[OF less.prems m] d)
      using c by (auto simp: add.commute)
  qed
qed

lemma replaceAllParam_loop_spec:
  "replaceAllParam_loop ps i sql = Ok (translate_spec (map ParamName ps) i sql)"
  by (induction ps arbitrary: i sql) (simp_all add: replaceParamPG_returns)

lemma replaceAllParam_returns: "replaceAllParam ds sql = Ok (placeholder_text ds sql)"
  by (simp add: replaceAllParam_def placeholder_text_def replaceAllParam_loop_spec
           split: DialectType.splits)

lemma macros_loop_returns: "\<exists>t. macros_loop ms sql = Ok t"
proof (induction ms arbitrary: sql)
  case Nil
  then show ?case by simp
next
  case (Cons m ms)
  show ?case
  proof (cases "MacroValue m")
    case (VStrings xs)
    with Cons show ?thesis by (simp add: rbind_def)
  next
    case (VInts xs)
    with Cons show ?thesis by (simp add: rbind_def)
  qed (use Cons in simp_all)
qed

lemma GetSql_returns: "\<exists>sql. GetSql ds = Ok sql"
proof -
  from macros_loop_returns obtain t where "macros_loop (Macros ds) (Strings_Text (Sql ds)) = Ok t"
    by blast
  then show ?thesis by (simp add: GetSql_def rbind_def replaceAllParam_returns)
qed

lemma word_char_not_delimiter: "is_word_char c \<Longrightarrow> c \<notin> set delimiters"
  by (auto simp: is_word_char_def delimiters_def)

lemma replaceParamPG_at_token:
  assumes "tok \<noteq> []"
  shows "replaceParamPG (tok @ rest) tok n
         = Some ((if rest = [] \<or> hd rest \<in> set delimiters then ''$'' @ showInt n else tok)
                 @ rewrite_token tok n rest, n)"
proof -
  have t: "take (length tok) (tok @ rest) = tok" by simp
  have d: "drop (length tok) (tok @ rest) = rest" by simp
  have c: "(length (tok @ rest) = length tok \<or> (tok @ rest) ! length tok \<in> set delimiters)
           = (rest = [] \<or> hd rest \<in> set delimiters)"
    by (cases rest) (simp_all add: nth_append)
  show ?thesis
    unfolding replaceParamPG_returns[OF assms] rewrite_token_match[OF assms t] d c ..
qed

text \<open>
  Claim C1. Under the PostgreSQL dialect the SQL assembly's translation returns (and so
  does \<^verbatim>\<open>GetSql\<close>, which ends with it), and its result is the translation of the spec: for the parameter at list position \<open>i\<close>, every
  occurrence of \<open>:name\<close> found by the left-to-right scan that is followed by a delimiter
  or ends the text becomes \<open>$(i+1)\<close>, every other occurrence (the token is a proper
  prefix of a longer identifier) is kept. On the code itself: a token that is the whole
  text, or is followed by a delimiter, is replaced; a token followed by a letter, a digit
  or an underscore is kept, and the scan goes on behind it. In particular, with the parameters \<open>a, b\<close> the
  text \<open>x = :a and y = :a and z = :b\<close> becomes \<open>x = $1 and y = $1 and z = $2\<close>, and
  with the parameter \<open>a\<close> the text \<open>v = :ab\<close> is unchanged.
\<close>

theorem postgresql_placeholders_by_list_position:
  "(dialect_of ds = POSTGRESQL \<longrightarrow>
      replaceAllParam ds sql = Ok (translate_spec (map ParamName (List (Params ds))) 0 sql))
   \<and> (dialect_of ds = POSTGRESQL \<and> macros_loop (Macros ds) (Strings_Text (Sql ds)) = Ok raw
        \<longrightarrow>
      GetSql ds = Ok (translate_spec (map ParamName (List (Params ds))) 0 (newlines raw)))
   \<and> replaceParamPG (CHR '':'' # name) (CHR '':'' # name) n = Some (''$'' @ showInt n, n)
   \<and> (d \<in> set delimiters \<longrightarrow>
        replaceParamPG ((CHR '':'' # name) @ d # rest) (CHR '':'' # name) n
          = Some (''$'' @ showInt n @ rewrite_token (CHR '':'' # name) n (d # rest), n))
   \<and> (is_word_char c \<longrightarrow>
        replaceParamPG ((CHR '':'' # name) @ c # rest) (CHR '':'' # name) n
          = Some ((CHR '':'' # name) @ rewrite_token (CHR '':'' # name) n (c # rest), n))
   \<and> translate_spec [''a'', ''b''] 0 ''x = :a and y = :a and z = :b''
       = ''x = $1 and y = $1 and z = $2''
   \<and> translate_spec [''a''] 0 ''v = :ab'' = ''v = :ab''"
proof -
  have e1: "translate_spec [''a'', ''b''] 0 ''x = :a and y = :a and z = :b''
            = ''x = $1 and y = $1 and z = $2''"
    by code_simp
  have e2: "translate_spec [''a''] 0 ''v = :ab'' = ''v = :ab''"
    by code_simp
  have g: "dialect_of ds = POSTGRESQL \<longrightarrow>
             replaceAllParam ds sql = Ok (translate_spec (map ParamName (List (Params ds))) 0 sql)"
    by (simp add: replaceAllParam_def replaceAllParam_loop_spec)
  have h: "dialect_of ds = POSTGRESQL \<and> macros_loop (Macros ds) (Strings_Text (Sql ds)) = Ok raw
             \<longrightarrow>
           GetSql ds = Ok (translate_spec (map ParamName (List (Params ds))) 0 (newlines raw))"
    by (simp add: GetSql_def rbind_def replaceAllParam_def replaceAllParam_loop_spec)
  have k1: "replaceParamPG (CHR '':'' # name) (CHR '':'' # name) n = Some (''$'' @ showInt n, n)"
    using replaceParamPG_at_token[of "CHR '':'' # name" "[]" n] by simp
  have k2: "d \<in> set delimiters \<longrightarrow>
        replaceParamPG ((CHR '':'' # name) @ d # rest) (CHR '':'' # name) n
          = Some (''$'' @ showInt n @ rewrite_token (CHR '':'' # name) n (d # rest), n)"
    using replaceParamPG_at_token[of "CHR '':'' # name" "d # rest" n] by simp
  have k3: "is_word_char c \<longrightarrow>
        replaceParamPG ((CHR '':'' # name) @ c # rest) (CHR '':'' # name) n
          = Some ((CHR '':'' # name) @ rewrite_token (CHR '':'' # name) n (c # rest), n)"
    using replaceParamPG_at_token[of "CHR '':'' # name" "c # rest" n] word_char_not_delimiter[of c]
    by simp
  show ?thesis
    by (rule conjI[OF g conjI[OF h conjI[OF k1 conjI[OF k2 conjI[OF k3 conjI[OF e1 e2]]]]]])
qed

theorem postgresql_placeholders_by_list_position_witness:
  "dialect_of pg_params_a_b = POSTGRESQL
   \<and> replaceAllParam pg_params_a_b ''x = :a and y = :a and z = :b''
       = Ok ''x = $1 and y = $1 and z = $2''
   \<and> replaceAllParam pg_params_a ''v = :ab'' = Ok ''v = :ab''"
proof -
  have d1: "dialect_of pg_params_a_b = POSTGRESQL"
    by (simp add: dialect_of_def pg_params_a_b_def NewDataSet_def)
  have d2: "dialect_of pg_params_a = POSTGRESQL"
    by (simp add: dialect_of_def pg_params_a_def NewDataSet_def)
  have n1: "map ParamName (List (Params pg_params_a_b)) = [''a'', ''b'']"
    by (simp add: pg_params_a_b_def input_param_def)
  have n2: "map ParamName (List (Params pg_params_a)) = [''a'']"
    by (simp add: pg_params_a_def input_param_def)
  note t1 = postgresql_placeholders_by_list_position
              [of pg_params_a_b "''x = :a and y = :a and z = :b''", unfolded n1]
  note t2 = postgresql_placeholders_by_list_position
              [of pg_params_a "''v = :ab''", unfolded n2]
  note a1 = mp[OF conjunct1[OF t1] d1]
  note e1 = conjunct1[OF conjunct2[OF conjunct2[OF conjunct2[OF conjunct2[OF conjunct2[OF t1]]]]]]
  note a2 = mp[OF conjunct1[OF t2] d2]
  note e2 = conjunct2[OF conjunct2[OF conjunct2[OF conjunct2[OF conjunct2[OF conjunct2[OF t2]]]]]]
  have r1: "replaceAllParam pg_params_a_b ''x = :a and y = :a and z = :b''
            = Ok ''x = $1 and y = $1 and z = $2''"
    by (simp only: a1 e1)
  have r2: "replaceAllParam pg_params_a ''v = :ab'' = Ok ''v = :ab''"
    by (simp only: a2 e2)
  show ?thesis
    by (rule conjI[OF d1 conjI[OF r1 r2]])
qed

section \<open>Properties of the master-detail assembly\<close>











text \<open>
  Claim C4: a link whose detail sequence is shorter than its master sequence is not
  skipped. The guard of \<^verbatim>\<open>GetSqlMasterDetail\<close> lets the loop run as soon as one of the two
  sequences is non-empty, the loop runs over the master sequence, and it reads the detail
  sequence out of range. With the master field \<open>CODE\<close> and no detail field the assembly
  panics without printing the diagnostic; with two master fields and one detail field it
  panics after registering the first alias.
\<close>

theorem master_detail_shorter_detail_panics:
  "GetSqlMasterDetail (detail_of [''CODE''] []) []
     = (Panic ''index out of range'', (detail_of [''CODE''] [])\<lparr>Params := NewParams\<rparr>, [])
   \<and> fst (GetSqlMasterDetail (detail_of [''CODE'', ''ID''] [''A'']) [])
     = Panic ''index out of range''
   \<and> Params (fst (snd (GetSqlMasterDetail (detail_of [''CODE'', ''ID''] [''A'']) [])))
     = \<lparr>List = [input_param ''CODE0000'' (VInt 7)], BatchSize = 0\<rparr>"
proof -
  have g: "\<And>df. GetSql (detail_of [''CODE''] df) = Ok ''select * from t''"
    by (simp add: GetSql_def detail_of_def AddSql_def NewDataSet_def NewMacros_def
          Strings_Add_def Strings_Text_def rbind_def replaceAllParam_def dialect_of_def
          newlines_def strings_ReplaceAll.simps)
  have a: "GetSqlMasterDetail (detail_of [''CODE''] []) []
           = (Panic ''index out of range'', (detail_of [''CODE''] [])\<lparr>Params := NewParams\<rparr>, [])"
    by (simp add: GetSqlMasterDetail_def g)
       (simp add: detail_of_def AddSql_def NewDataSet_def masterDetail_loop.simps Let_def)
  have b: "fst (GetSqlMasterDetail (detail_of [''CODE'', ''ID''] [''A'']) [])
           = Panic ''index out of range''"
    by code_simp
  have c: "Params (fst (snd (GetSqlMasterDetail (detail_of [''CODE'', ''ID''] [''A'']) [])))
           = \<lparr>List = [input_param ''CODE0000'' (VInt 7)], BatchSize = 0\<rparr>"
    by code_simp
  from a b c show ?thesis by simp
qed

theorem master_detail_shorter_detail_panics_witness:
  "length (MasterFields (MasterSource (detail_of [''CODE''] []))) \<noteq> 0
   \<and> length (DetailFields (MasterSource (detail_of [''CODE''] []))) = 0
   \<and> fst (GetSqlMasterDetail (detail_of [''CODE''] []) []) = Panic ''index out of range''
   \<and> snd (snd (GetSqlMasterDetail (detail_of [''CODE''] []) [])) = []"
  using master_detail_shorter_detail_panics
  by (simp add: detail_of_def)

section \<open>Properties of ExecBatch\<close>

lemma GetParamsBatch_loop_ok:
  "\<forall>p \<in> set ps. i < length (ParamValues p) \<Longrightarrow>
   GetParamsBatch_loop ps i acc = Ok (acc @ map (\<lambda>p. bind_param p (ParamValues p ! i)) ps)"
  by (induction ps arbitrary: acc) auto

lemma GetParamsBatch_ok:
  "\<forall>p \<in> set (List (Params ds)). i < length (ParamValues p) \<Longrightarrow>
   GetParamsBatch ds i = Ok (batch_args ds i)"
  by (simp add: GetParamsBatch_def batch_args_def GetParamsBatch_loop_ok)

lemma batch_calls_snoc: "i \<le> k \<Longrightarrow> batch_calls ds i (Suc k) = batch_calls ds i k @ [StmtExec (Ctx ds) (batch_args ds k)]"
  by (simp add: batch_calls_def)

lemma batch_calls_Cons: "i < k \<Longrightarrow> batch_calls ds i k = StmtExec (Ctx ds) (batch_args ds i) # batch_calls ds (Suc i) k"
  by (simp add: batch_calls_def upt_conv_Cons)

lemma ExecBatch_loop_runs:
  "\<forall>p \<in> set (List (Params ds)). BatchSize (Params ds) \<le> int (length (ParamValues p)) \<Longrightarrow>
   0 \<le> i \<Longrightarrow> i \<le> BatchSize (Params ds) \<Longrightarrow>
     \<exists>k. nat i \<le> k \<and> k \<le> nat (BatchSize (Params ds))
       \<and> snd (ExecBatch_loop drv ds i tr) = tr @ batch_calls ds (nat i) k
       \<and> (\<forall>j. nat i \<le> j \<and> Suc j < k \<longrightarrow> exec drv (tr @ batch_calls ds (nat i) (Suc j)) = None)
       \<and> (case fst (ExecBatch_loop drv ds i tr) of
             Ok None \<Rightarrow> k = nat (BatchSize (Params ds))
                        \<and> (\<forall>j. nat i \<le> j \<and> j < k \<longrightarrow> exec drv (tr @ batch_calls ds (nat i) (Suc j)) = None)
           | Ok (Some e) \<Rightarrow> nat i < k \<and> exec drv (tr @ batch_calls ds (nat i) k) = Some e
           | Panic m \<Rightarrow> False
           | NoReturn \<Rightarrow> False)"
proof (induction drv ds i tr rule: ExecBatch_loop.induct)
  case (1 drv ds i tr)
  let ?B = "BatchSize (Params ds)"
  note vals = "1.prems"(1)
  note i0 = "1.prems"(2)
  note iB = "1.prems"(3)
  show ?case
  proof (cases "i < ?B")
    case False
    with iB have "i = ?B" by simp
    then show ?thesis
      by (subst (1 2) ExecBatch_loop.simps) (auto simp: batch_calls_def intro!: exI[of _ "nat ?B"])
  next
    case True
    have inr: "\<forall>p \<in> set (List (Params ds)). nat i < length (ParamValues p)"
    proof
      fix p assume "p \<in> set (List (Params ds))"
      with vals have "?B \<le> int (length (ParamValues p))" by blast
      with True i0 show "nat i < length (ParamValues p)" by linarith
    qed
    note gp = GetParamsBatch_ok[OF inr]
    let ?tr' = "tr @ [StmtExec (Ctx ds) (batch_args ds (nat i))]"
    have bc1: "batch_calls ds (nat i) (Suc (nat i)) = [StmtExec (Ctx ds) (batch_args ds (nat i))]"
      by (simp add: batch_calls_def)
    show ?thesis
    proof (cases "exec drv ?tr'")
      case (Some err)
      have l: "ExecBatch_loop drv ds i tr = (Ok (Some err), ?tr')"
        using True i0 gp Some by (subst ExecBatch_loop.simps) (simp add: Let_def)
      show ?thesis
        by (rule exI[of _ "Suc (nat i)"]) (use True i0 Some in \<open>auto simp: l bc1 nat_less_iff\<close>)
    next
      case None
      have l: "ExecBatch_loop drv ds i tr = ExecBatch_loop drv ds (i + 1) ?tr'"
        using True i0 gp None by (subst ExecBatch_loop.simps) (simp add: Let_def)
      have c: "0 \<le> i \<and> i < ?B" using True i0 by simp
      have n1: "nat (i + 1) = Suc (nat i)" using i0 by simp
      have i1: "0 \<le> i + 1" "i + 1 \<le> ?B" using True i0 by simp_all
      from "1.IH"[OF c gp refl None vals i1, unfolded n1]
      obtain k where k: "Suc (nat i) \<le> k" "k \<le> nat ?B"
        "snd (ExecBatch_loop drv ds (i + 1) ?tr') = ?tr' @ batch_calls ds (Suc (nat i)) k"
        "\<forall>j. Suc (nat i) \<le> j \<and> Suc j < k \<longrightarrow> exec drv (?tr' @ batch_calls ds (Suc (nat i)) (Suc j)) = None"
        "(case fst (ExecBatch_loop drv ds (i + 1) ?tr') of
             Ok None \<Rightarrow> k = nat ?B
                        \<and> (\<forall>j. Suc (nat i) \<le> j \<and> j < k \<longrightarrow> exec drv (?tr' @ batch_calls ds (Suc (nat i)) (Suc j)) = None)
           | Ok (Some e) \<Rightarrow> Suc (nat i) < k \<and> exec drv (?tr' @ batch_calls ds (Suc (nat i)) k) = Some e
           | Panic m \<Rightarrow> False
           | NoReturn \<Rightarrow> False)"
        by blast
      have app: "\<And>m. nat i < m \<Longrightarrow> ?tr' @ batch_calls ds (Suc (nat i)) m = tr @ batch_calls ds (nat i) m"
        by (simp add: batch_calls_Cons)
      have k0: "nat i < k" using k(1) by simp
      have e1: "\<forall>j. nat i \<le> j \<and> Suc j < k \<longrightarrow> exec drv (tr @ batch_calls ds (nat i) (Suc j)) = None"
      proof (intro allI impI)
        fix j assume j: "nat i \<le> j \<and> Suc j < k"
        show "exec drv (tr @ batch_calls ds (nat i) (Suc j)) = None"
        proof (cases "j = nat i")
          case True
          then show ?thesis using None by (simp add: bc1)
        next
          case False
          with j have "Suc (nat i) \<le> j \<and> Suc j < k" by simp
          with k(4) have "exec drv (?tr' @ batch_calls ds (Suc (nat i)) (Suc j)) = None" by blast
          then show ?thesis using app[of "Suc j"] j by simp
        qed
      qed
      show ?thesis
      proof (rule exI[of _ k], intro conjI)
        show "nat i \<le> k" using k0 by simp
        show "k \<le> nat ?B" by (rule k(2))
        show "snd (ExecBatch_loop drv ds i tr) = tr @ batch_calls ds (nat i) k"
          using k(3) app[OF k0] by (simp add: l)
        show "\<forall>j. nat i \<le> j \<and> Suc j < k \<longrightarrow> exec drv (tr @ batch_calls ds (nat i) (Suc j)) = None"
          by (rule e1)
        show "case fst (ExecBatch_loop drv ds i tr) of
             Ok None \<Rightarrow> k = nat ?B
                        \<and> (\<forall>j. nat i \<le> j \<and> j < k \<longrightarrow> exec drv (tr @ batch_calls ds (nat i) (Suc j)) = None)
           | Ok (Some e) \<Rightarrow> nat i < k \<and> exec drv (tr @ batch_calls ds (nat i) k) = Some e
           | Panic m \<Rightarrow> False
           | NoReturn \<Rightarrow> False"
        proof (cases "fst (ExecBatch_loop drv ds (i + 1) ?tr')")
          case (Ok r)
          show ?thesis
          proof (cases r)
            case None': None
            from k(5) Ok None' have kb: "k = nat ?B"
              and all: "\<forall>j. Suc (nat i) \<le> j \<and> j < k \<longrightarrow> exec drv (?tr' @ batch_calls ds (Suc (nat i)) (Suc j)) = None"
              by auto
            have "\<forall>j. nat i \<le> j \<and> j < k \<longrightarrow> exec drv (tr @ batch_calls ds (nat i) (Suc j)) = None"
            proof (intro allI impI)
              fix j assume j: "nat i \<le> j \<and> j < k"
              show "exec drv (tr @ batch_calls ds (nat i) (Suc j)) = None"
              proof (cases "j = nat i")
                case True
                then show ?thesis using None by (simp add: bc1)
              next
                case False
                with j have "Suc (nat i) \<le> j \<and> j < k" by simp
                with all have "exec drv (?tr' @ batch_calls ds (Suc (nat i)) (Suc j)) = None" by blast
                then show ?thesis using app[of "Suc j"] j by simp
              qed
            qed
            with kb Ok None' show ?thesis by (simp add: l)
          next
            case (Some e)
            from k(5) Ok Some have "Suc (nat i) < k" "exec drv (?tr' @ batch_calls ds (Suc (nat i)) k) = Some e"
              by auto
            with Ok Some k0 app[OF k0] show ?thesis by (simp add: l)
          qed
        next
          case (Panic m)
          with k(5) show ?thesis by simp
        next
          case NoReturn
          with k(5) show ?thesis by simp
        qed
      qed
    qed
  qed
qed


lemma count_batch_calls:
  "count_calls is_exec (batch_calls ds i k) = k - i \<and> count_calls is_prepare (batch_calls ds i k) = 0"
  by (simp add: batch_calls_def count_calls_def comp_def)

lemma count_log_query_exec:
  "count_calls is_exec (log_query c q ds tr) = count_calls is_exec tr
   \<and> count_calls is_prepare (log_query c q ds tr) = count_calls is_prepare tr"
  by (simp add: log_query_def count_calls_def)

lemma count_calls_append: "count_calls P (xs @ ys) = count_calls P xs + count_calls P ys"
  by (simp add: count_calls_def)


text \<open>
  Claim C5, as stated, fails twice. The number of executions is \<^verbatim>\<open>Params.BatchSize\<close>, not
  the argument: with three batch values and \<^verbatim>\<open>BatchSize = 3\<close>, \<^verbatim>\<open>ExecBatch(1)\<close> executes
  three times. And there is no fallback to the scalar value: a parameter with a scalar
  value and no batch value makes \<^verbatim>\<open>GetParamsBatch\<close> read \<^verbatim>\<open>Values[0]\<close> out of range.
\<close>

theorem exec_batch_count_and_fallback_counterexample:
  "count_calls is_exec (snd (ExecBatch db_ok 1 batch_of_three [])) = 3
   \<and> fst (ExecBatch db_ok 1 scalar_only []) = Panic ''index out of range''
   \<and> count_calls is_exec (snd (ExecBatch db_ok 1 scalar_only [])) = 0"
  by code_simp

lemma ExecBatch_loop_counts:
  "count_calls is_prepare (snd (ExecBatch_loop drv ds i tr)) = count_calls is_prepare tr
   \<and> count_calls is_exec tr \<le> count_calls is_exec (snd (ExecBatch_loop drv ds i tr))
   \<and> count_calls is_exec (snd (ExecBatch_loop drv ds i tr))
       \<le> count_calls is_exec tr + nat (BatchSize (Params ds) - i)"
proof (induction drv ds i tr rule: ExecBatch_loop.induct)
  case (1 drv ds i tr)
  let ?B = "BatchSize (Params ds)"
  show ?case
  proof (cases "0 \<le> i \<and> i < ?B")
    case False
    then have l: "ExecBatch_loop drv ds i tr = (Ok None, tr)"
      by (subst ExecBatch_loop.simps) auto
    show ?thesis by (simp add: l)
  next
    case True
    show ?thesis
    proof (cases "GetParamsBatch ds (nat i)")
      case (Ok args)
      let ?tr' = "tr @ [StmtExec (Ctx ds) args]"
      have p': "count_calls is_prepare ?tr' = count_calls is_prepare tr"
        and e': "count_calls is_exec ?tr' = count_calls is_exec tr + 1"
        by (simp_all add: count_calls_def)
      show ?thesis
      proof (cases "exec drv ?tr'")
        case (Some err)
        have l: "ExecBatch_loop drv ds i tr = (Ok (Some err), ?tr')"
          using True Ok Some by (subst ExecBatch_loop.simps) (simp add: Let_def)
        from True have "1 \<le> nat (?B - i)" by linarith
        then show ?thesis by (simp add: l p' e')
      next
        case None
        have l: "ExecBatch_loop drv ds i tr = ExecBatch_loop drv ds (i + 1) ?tr'"
          using True Ok None by (subst ExecBatch_loop.simps) (simp add: Let_def)
        note ih = "1.IH"[OF True Ok refl None]
        from True have n: "nat (?B - i) = 1 + nat (?B - (i + 1))" by linarith
        from ih show ?thesis by (simp only: l p' e' n) simp
      qed
    next
      case (Panic m)
      have l: "ExecBatch_loop drv ds i tr = (Panic m, tr)"
        using True Panic by (subst ExecBatch_loop.simps) auto
      show ?thesis by (simp add: l)
    next
      case NoReturn
      have l: "ExecBatch_loop drv ds i tr = (NoReturn, tr)"
        using True NoReturn by (subst ExecBatch_loop.simps) auto
      show ?thesis by (simp add: l)
    qed
  qed
qed

lemma ExecBatch_loop_extends:
  "\<exists>rest. snd (ExecBatch_loop drv ds i tr) = tr @ rest"
proof (induction drv ds i tr rule: ExecBatch_loop.induct)
  case (1 drv ds i tr)
  let ?B = "BatchSize (Params ds)"
  show ?case
  proof (cases "0 \<le> i \<and> i < ?B")
    case False
    then have l: "ExecBatch_loop drv ds i tr = (Ok None, tr)"
      by (subst ExecBatch_loop.simps) auto
    show ?thesis by (simp add: l)
  next
    case True
    show ?thesis
    proof (cases "GetParamsBatch ds (nat i)")
      case (Ok args)
      let ?tr' = "tr @ [StmtExec (Ctx ds) args]"
      show ?thesis
      proof (cases "exec drv ?tr'")
        case (Some err)
        have l: "ExecBatch_loop drv ds i tr = (Ok (Some err), ?tr')"
          using True Ok Some by (subst ExecBatch_loop.simps) (simp add: Let_def)
        show ?thesis by (simp add: l)
      next
        case None
        have l: "ExecBatch_loop drv ds i tr = ExecBatch_loop drv ds (i + 1) ?tr'"
          using True Ok None by (subst ExecBatch_loop.simps) (simp add: Let_def)
        from "1.IH"[OF True Ok refl None]
        obtain rest where "snd (ExecBatch_loop drv ds (i + 1) ?tr') = ?tr' @ rest" ..
        then have "snd (ExecBatch_loop drv ds i tr) = tr @ (StmtExec (Ctx ds) args # rest)"
          by (simp add: l)
        then show ?thesis ..
      qed
    next
      case (Panic m)
      have l: "ExecBatch_loop drv ds i tr = (Panic m, tr)"
        using True Panic by (subst ExecBatch_loop.simps) auto
      show ?thesis by (simp add: l)
    next
      case NoReturn
      have l: "ExecBatch_loop drv ds i tr = (NoReturn, tr)"
        using True NoReturn by (subst ExecBatch_loop.simps) auto
      show ?thesis by (simp add: l)
    qed
  qed
qed

lemma ExecBatch_extends:
  assumes q: "GetSql ds = Ok q"
  shows "\<exists>rest. snd (ExecBatch drv sz ds tr) = prepare_calls ds q tr @ rest"
proof (cases "prepare drv (prepare_calls ds q tr)")
  case (Some err)
  then have "ExecBatch drv sz ds tr = (Panic ''nil pointer dereference'', prepare_calls ds q tr)"
    using q by (simp add: ExecBatch_def prepare_calls_def Let_def)
  then show ?thesis by simp
next
  case None
  then have eb: "ExecBatch drv sz ds tr
      = (fst (ExecBatch_loop drv ds 0 (prepare_calls ds q tr)),
         snd (ExecBatch_loop drv ds 0 (prepare_calls ds q tr)) @ [StmtClose])"
    using q by (simp add: ExecBatch_def prepare_calls_def Let_def split: prod.splits)
  from ExecBatch_loop_extends[of drv ds 0 "prepare_calls ds q tr"]
  obtain rest where "snd (ExecBatch_loop drv ds 0 (prepare_calls ds q tr))
                     = prepare_calls ds q tr @ rest" ..
  then have "snd (ExecBatch drv sz ds tr) = prepare_calls ds q tr @ (rest @ [StmtClose])"
    by (simp add: eb)
  then show ?thesis ..
qed

lemma count_prepare_calls:
  "count_calls is_prepare (prepare_calls ds q tr) = count_calls is_prepare tr + 1
   \<and> count_calls is_exec (prepare_calls ds q tr) = count_calls is_exec tr"
  by (simp add: prepare_calls_def count_calls_def log_query_def split: option.splits)

lemma ExecBatch_counts:
  assumes q: "GetSql ds = Ok q"
  shows "count_calls is_prepare (snd (ExecBatch drv sz ds tr)) = count_calls is_prepare tr + 1
   \<and> count_calls is_exec tr \<le> count_calls is_exec (snd (ExecBatch drv sz ds tr))
   \<and> count_calls is_exec (snd (ExecBatch drv sz ds tr))
       \<le> count_calls is_exec tr + nat (BatchSize (Params ds))"
proof (cases "prepare drv (prepare_calls ds q tr)")
  case (Some err)
  then have "ExecBatch drv sz ds tr = (Panic ''nil pointer dereference'', prepare_calls ds q tr)"
    using q by (simp add: ExecBatch_def prepare_calls_def Let_def)
  then show ?thesis by (simp add: count_prepare_calls)
next
  case None
  then have eb: "ExecBatch drv sz ds tr
      = (fst (ExecBatch_loop drv ds 0 (prepare_calls ds q tr)),
         snd (ExecBatch_loop drv ds 0 (prepare_calls ds q tr)) @ [StmtClose])"
    using q by (simp add: ExecBatch_def prepare_calls_def Let_def split: prod.splits)
  have c: "count_calls is_prepare [StmtClose] = 0" "count_calls is_exec [StmtClose] = 0"
    by (simp_all add: count_calls_def)
  from ExecBatch_loop_counts[of drv ds 0 "prepare_calls ds q tr"]
  show ?thesis
    by (simp add: eb count_calls_append c count_prepare_calls)
qed

text \<open>
  When the preparation fails, the deferred \<^verbatim>\<open>stmt.Close()\<close> runs on the nil statement
  before the error can be returned: nothing is executed and \<^verbatim>\<open>ExecBatch\<close> panics.
\<close>

lemma exec_batch_failed_prepare:
  "GetSql ds = Ok q \<Longrightarrow> prepare drv (prepare_calls ds q tr) = Some err \<Longrightarrow>
   ExecBatch drv sz ds tr = (Panic ''nil pointer dereference'', prepare_calls ds q tr)"
  by (simp add: ExecBatch_def prepare_calls_def Let_def)

text \<open>
  \<^verbatim>\<open>ExecBatch\<close> when the preparation succeeds and every parameter has its batch values:
  \<open>tr1\<close> are the calls up to the preparation, \<open>k\<close> is the number of executions.
\<close>

lemma ExecBatch_prepared:
  assumes q: "GetSql ds = Ok q"
    and t1: "tr1 = (case Tx ds of
                      Some tx \<Rightarrow> log_query (TxConn tx) q ds tr @ [TxPrepare (Ctx ds) q]
                    | None \<Rightarrow> log_query (Connection ds) q ds tr @ [DBPrepare (Ctx ds) q])"
    and prep: "prepare drv tr1 = None"
    and vals: "\<forall>p \<in> set (List (Params ds)). BatchSize (Params ds) \<le> int (length (ParamValues p))"
  shows "\<exists>k. k \<le> nat (BatchSize (Params ds))
           \<and> snd (ExecBatch drv sz ds tr) = tr1 @ batch_calls ds 0 k @ [StmtClose]
           \<and> count_calls is_prepare (snd (ExecBatch drv sz ds tr)) = count_calls is_prepare tr + 1
           \<and> count_calls is_exec (snd (ExecBatch drv sz ds tr)) = count_calls is_exec tr + k
           \<and> (\<forall>j. Suc j < k \<longrightarrow> exec drv (tr1 @ batch_calls ds 0 (Suc j)) = None)
           \<and> (case fst (ExecBatch drv sz ds tr) of
                 Ok None \<Rightarrow> k = nat (BatchSize (Params ds))
                            \<and> (\<forall>j. j < k \<longrightarrow> exec drv (tr1 @ batch_calls ds 0 (Suc j)) = None)
               | Ok (Some e) \<Rightarrow> 0 < k \<and> exec drv (tr1 @ batch_calls ds 0 k) = Some e
               | Panic m \<Rightarrow> False
               | NoReturn \<Rightarrow> False)
           \<and> ExecBatch drv sz ds tr = ExecBatch drv sz' ds tr"
proof -
  have eb: "ExecBatch drv sz ds tr
            = (fst (ExecBatch_loop drv ds 0 tr1), snd (ExecBatch_loop drv ds 0 tr1) @ [StmtClose])"
    using q prep t1 by (simp add: ExecBatch_def Let_def split: prod.splits)
  have cp: "count_calls is_prepare tr1 = count_calls is_prepare tr + 1"
    and ce: "count_calls is_exec tr1 = count_calls is_exec tr"
    unfolding t1 by (auto simp: count_calls_append count_log_query_exec split: option.splits)
                    (auto simp: count_calls_def)
  have ind: "ExecBatch drv sz ds tr = ExecBatch drv sz' ds tr"
    by (simp add: ExecBatch_def)
  have ex: "\<exists>k. k \<le> nat (BatchSize (Params ds))
      \<and> snd (ExecBatch_loop drv ds 0 tr1) = tr1 @ batch_calls ds 0 k
      \<and> (\<forall>j. Suc j < k \<longrightarrow> exec drv (tr1 @ batch_calls ds 0 (Suc j)) = None)
      \<and> (case fst (ExecBatch_loop drv ds 0 tr1) of
                 Ok None \<Rightarrow> k = nat (BatchSize (Params ds))
                            \<and> (\<forall>j. j < k \<longrightarrow> exec drv (tr1 @ batch_calls ds 0 (Suc j)) = None)
               | Ok (Some e) \<Rightarrow> 0 < k \<and> exec drv (tr1 @ batch_calls ds 0 k) = Some e
               | Panic m \<Rightarrow> False
               | NoReturn \<Rightarrow> False)"
  proof (cases "0 \<le> BatchSize (Params ds)")
    case True
    have z: "(0::int) \<le> 0" by simp
    from ExecBatch_loop_runs[OF vals z True, of drv tr1, unfolded nat_0]
    obtain k where u: "0 \<le> k \<and> k \<le> nat (BatchSize (Params ds))
       \<and> snd (ExecBatch_loop drv ds 0 tr1) = tr1 @ batch_calls ds 0 k
       \<and> (\<forall>j. 0 \<le> j \<and> Suc j < k \<longrightarrow> exec drv (tr1 @ batch_calls ds 0 (Suc j)) = None)
       \<and> (case fst (ExecBatch_loop drv ds 0 tr1) of
             Ok None \<Rightarrow> k = nat (BatchSize (Params ds))
                        \<and> (\<forall>j. 0 \<le> j \<and> j < k \<longrightarrow> exec drv (tr1 @ batch_calls ds 0 (Suc j)) = None)
           | Ok (Some e) \<Rightarrow> 0 < k \<and> exec drv (tr1 @ batch_calls ds 0 k) = Some e
           | Panic m \<Rightarrow> False
           | NoReturn \<Rightarrow> False)" ..
    note u2 = conjunct1[OF conjunct2[OF u]]
    note u3 = conjunct1[OF conjunct2[OF conjunct2[OF u]]]
    note u4 = conjunct1[OF conjunct2[OF conjunct2[OF conjunct2[OF u]]]]
    note u5 = conjunct2[OF conjunct2[OF conjunct2[OF conjunct2[OF u]]]]
    have v4: "\<forall>j. Suc j < k \<longrightarrow> exec drv (tr1 @ batch_calls ds 0 (Suc j)) = None"
      using u4 by simp
    have v5: "(case fst (ExecBatch_loop drv ds 0 tr1) of
                 Ok None \<Rightarrow> k = nat (BatchSize (Params ds))
                            \<and> (\<forall>j. j < k \<longrightarrow> exec drv (tr1 @ batch_calls ds 0 (Suc j)) = None)
               | Ok (Some e) \<Rightarrow> 0 < k \<and> exec drv (tr1 @ batch_calls ds 0 k) = Some e
               | Panic m \<Rightarrow> False
               | NoReturn \<Rightarrow> False)"
    proof (cases "fst (ExecBatch_loop drv ds 0 tr1)")
      case (Ok r)
      show ?thesis
      proof (cases r)
        case None
        with u5 Ok show ?thesis by simp
      next
        case (Some e)
        with u5 Ok show ?thesis by simp
      qed
    next
      case (Panic m)
      with u5 show ?thesis by simp
    next
      case NoReturn
      with u5 show ?thesis by simp
    qed
    show ?thesis
      by (rule exI[of _ k]) (rule conjI[OF u2 conjI[OF u3 conjI[OF v4 v5]]])
  next
    case False
    then have l: "ExecBatch_loop drv ds 0 tr1 = (Ok None, tr1)"
      by (subst ExecBatch_loop.simps) simp
    from False have "nat (BatchSize (Params ds)) = 0" by simp
    then show ?thesis by (intro exI[of _ 0]) (simp add: l batch_calls_def)
  qed
  then obtain k where kk: "k \<le> nat (BatchSize (Params ds))
      \<and> snd (ExecBatch_loop drv ds 0 tr1) = tr1 @ batch_calls ds 0 k
      \<and> (\<forall>j. Suc j < k \<longrightarrow> exec drv (tr1 @ batch_calls ds 0 (Suc j)) = None)
      \<and> (case fst (ExecBatch_loop drv ds 0 tr1) of
                 Ok None \<Rightarrow> k = nat (BatchSize (Params ds))
                            \<and> (\<forall>j. j < k \<longrightarrow> exec drv (tr1 @ batch_calls ds 0 (Suc j)) = None)
               | Ok (Some e) \<Rightarrow> 0 < k \<and> exec drv (tr1 @ batch_calls ds 0 k) = Some e
               | Panic m \<Rightarrow> False
               | NoReturn \<Rightarrow> False)" ..
  note k1 = conjunct1[OF kk]
  note k2 = conjunct1[OF conjunct2[OF kk]]
  note k3 = conjunct1[OF conjunct2[OF conjunct2[OF kk]]]
  note k4 = conjunct2[OF conjunct2[OF conjunct2[OF kk]]]
  have s: "snd (ExecBatch drv sz ds tr) = tr1 @ batch_calls ds 0 k @ [StmtClose]"
    by (simp add: eb k2)
  have f: "fst (ExecBatch drv sz ds tr) = fst (ExecBatch_loop drv ds 0 tr1)"
    by (simp add: eb)
  have c1: "count_calls is_prepare (snd (ExecBatch drv sz ds tr)) = count_calls is_prepare tr + 1"
    by (simp add: s count_calls_append cp count_batch_calls) (simp add: count_calls_def)
  have c2: "count_calls is_exec (snd (ExecBatch drv sz ds tr)) = count_calls is_exec tr + k"
    by (simp add: s count_calls_append ce count_batch_calls) (simp add: count_calls_def)
  show ?thesis
    apply (rule exI[of _ k])
    apply (intro conjI)
          apply (rule k1)
         apply (rule s)
        apply (rule c1)
       apply (rule c2)
      apply (rule k3)
     apply (simp only: f)
     apply (rule k4)
    apply (rule ind)
    done
qed



text \<open>
  Claim C5, amended. \<^verbatim>\<open>ExecBatch(n)\<close> prepares the assembled statement once and executes
  it at most \<^verbatim>\<open>Params.BatchSize\<close> times, whatever \<open>n\<close> is: the preparation of the
  assembled SQL is its first call to the database, no other preparation follows, and the
  result does not depend on \<open>n\<close>. When the preparation succeeds and every parameter has a
  batch value at each index below \<^verbatim>\<open>BatchSize\<close>, execution \<open>i\<close> binds for every parameter
  its batch value at index \<open>i\<close>; the executions run in the order 0, 1, ...; the first
  failing execution ends the loop and its error is returned, no later execution being
  attempted; when none fails, exactly \<^verbatim>\<open>BatchSize\<close> executions are made and no error is
  returned. The prepared statement is closed at the end.
\<close>

theorem exec_batch_runs_BatchSize_times:
  "\<exists>q k. GetSql ds = Ok q
     \<and> (\<exists>rest. snd (ExecBatch drv sz ds tr) = prepare_calls ds q tr @ rest)
     \<and> k \<le> nat (BatchSize (Params ds))
     \<and> count_calls is_prepare (snd (ExecBatch drv sz ds tr)) = count_calls is_prepare tr + 1
     \<and> count_calls is_exec (snd (ExecBatch drv sz ds tr)) = count_calls is_exec tr + k
     \<and> ExecBatch drv sz ds tr = ExecBatch drv sz' ds tr
     \<and> (prepare drv (prepare_calls ds q tr) = None
        \<and> (\<forall>p \<in> set (List (Params ds)). BatchSize (Params ds) \<le> int (length (ParamValues p)))
        \<longrightarrow>
          snd (ExecBatch drv sz ds tr) = prepare_calls ds q tr @ batch_calls ds 0 k @ [StmtClose]
        \<and> (\<forall>j. Suc j < k \<longrightarrow>
               exec drv (prepare_calls ds q tr @ batch_calls ds 0 (Suc j)) = None)
        \<and> (case fst (ExecBatch drv sz ds tr) of
              Ok None \<Rightarrow> k = nat (BatchSize (Params ds))
                         \<and> (\<forall>j. j < k \<longrightarrow>
                                exec drv (prepare_calls ds q tr @ batch_calls ds 0 (Suc j)) = None)
            | Ok (Some e) \<Rightarrow> 0 < k
                         \<and> exec drv (prepare_calls ds q tr @ batch_calls ds 0 k) = Some e
            | Panic m \<Rightarrow> False
            | NoReturn \<Rightarrow> False))"
proof -
  from GetSql_returns obtain q where q: "GetSql ds = Ok q" by blast
  let ?tr1 = "prepare_calls ds q tr"
  let ?r = "ExecBatch drv sz ds tr"
  define k where "k = count_calls is_exec (snd ?r) - count_calls is_exec tr"
  note c = ExecBatch_counts[OF q, of drv sz tr]
  have c1: "count_calls is_prepare (snd ?r) = count_calls is_prepare tr + 1"
    by (rule conjunct1[OF c])
  have c2: "count_calls is_exec (snd ?r) = count_calls is_exec tr + k"
    using conjunct1[OF conjunct2[OF c]] by (simp add: k_def)
  have c3: "k \<le> nat (BatchSize (Params ds))"
    using conjunct2[OF conjunct2[OF c]] by (simp add: k_def)
  have ind: "ExecBatch drv sz ds tr = ExecBatch drv sz' ds tr"
    by (simp add: ExecBatch_def)
  have t1: "?tr1 = (case Tx ds of
                      Some tx \<Rightarrow> log_query (TxConn tx) q ds tr @ [TxPrepare (Ctx ds) q]
                    | None \<Rightarrow> log_query (Connection ds) q ds tr @ [DBPrepare (Ctx ds) q])"
    by (simp add: prepare_calls_def)
  have cond: "snd ?r = ?tr1 @ batch_calls ds 0 k @ [StmtClose]
        \<and> (\<forall>j. Suc j < k \<longrightarrow> exec drv (?tr1 @ batch_calls ds 0 (Suc j)) = None)
        \<and> (case fst ?r of
              Ok None \<Rightarrow> k = nat (BatchSize (Params ds))
                         \<and> (\<forall>j. j < k \<longrightarrow> exec drv (?tr1 @ batch_calls ds 0 (Suc j)) = None)
            | Ok (Some e) \<Rightarrow> 0 < k \<and> exec drv (?tr1 @ batch_calls ds 0 k) = Some e
            | Panic m \<Rightarrow> False
            | NoReturn \<Rightarrow> False)"
    if h: "prepare drv ?tr1 = None
           \<and> (\<forall>p \<in> set (List (Params ds)). BatchSize (Params ds) \<le> int (length (ParamValues p)))"
  proof -
    from ExecBatch_prepared[OF q t1 conjunct1[OF h] conjunct2[OF h], of sz sz]
    obtain k' where u: "k' \<le> nat (BatchSize (Params ds))
           \<and> snd ?r = ?tr1 @ batch_calls ds 0 k' @ [StmtClose]
           \<and> count_calls is_prepare (snd ?r) = count_calls is_prepare tr + 1
           \<and> count_calls is_exec (snd ?r) = count_calls is_exec tr + k'
           \<and> (\<forall>j. Suc j < k' \<longrightarrow> exec drv (?tr1 @ batch_calls ds 0 (Suc j)) = None)
           \<and> (case fst ?r of
                 Ok None \<Rightarrow> k' = nat (BatchSize (Params ds))
                            \<and> (\<forall>j. j < k' \<longrightarrow> exec drv (?tr1 @ batch_calls ds 0 (Suc j)) = None)
               | Ok (Some e) \<Rightarrow> 0 < k' \<and> exec drv (?tr1 @ batch_calls ds 0 k') = Some e
               | Panic m \<Rightarrow> False
               | NoReturn \<Rightarrow> False)
           \<and> ExecBatch drv sz ds tr = ExecBatch drv sz ds tr" ..
    have "count_calls is_exec (snd ?r) = count_calls is_exec tr + k'"
      by (rule conjunct1[OF conjunct2[OF conjunct2[OF conjunct2[OF u]]]])
    with c2 have kk: "k' = k" by simp
    note u2 = conjunct1[OF conjunct2[OF u]]
    note u5 = conjunct1[OF conjunct2[OF conjunct2[OF conjunct2[OF conjunct2[OF u]]]]]
    note u6 = conjunct1[OF conjunct2[OF conjunct2[OF conjunct2[OF conjunct2[OF conjunct2[OF u]]]]]]
    show ?thesis
      by (rule conjI[OF u2[unfolded kk] conjI[OF u5[unfolded kk] u6[unfolded kk]]])
  qed
  show ?thesis
    apply (rule exI[of _ q])
    apply (rule exI[of _ k])
    apply (intro conjI impI)
            apply (rule q)
           apply (rule ExecBatch_extends[OF q])
          apply (rule c3)
         apply (rule c1)
        apply (rule c2)
       apply (rule ind)
      apply (erule conjunct1[OF cond])
     apply (erule conjunct1[OF conjunct2[OF cond]])
    apply (erule conjunct2[OF conjunct2[OF cond]])
    done
qed

theorem exec_batch_runs_BatchSize_times_witness:
  "GetSql batch_of_three = Ok ''insert into t values (:x)''
   \<and> prepare db_second_exec_fails
        (prepare_calls batch_of_three ''insert into t values (:x)'' []) = None
   \<and> BatchSize (Params batch_of_three) = 3
   \<and> map (\<lambda>p. length (ParamValues p)) (List (Params batch_of_three)) = [3]
   \<and> count_calls is_prepare (snd (ExecBatch db_second_exec_fails 7 batch_of_three [])) = 1
   \<and> ExecBatch db_ok 7 batch_of_three []
       = (Ok None,
          [DBPrepare None ''insert into t values (:x)'',
           StmtExec None [Named ''x'' (VInt 10)],
           StmtExec None [Named ''x'' (VInt 20)],
           StmtExec None [Named ''x'' (VInt 30)],
           StmtClose])
   \<and> ExecBatch db_second_exec_fails 7 batch_of_three []
       = (Ok (Some ''duplicate key''),
          [DBPrepare None ''insert into t values (:x)'',
           StmtExec None [Named ''x'' (VInt 10)],
           StmtExec None [Named ''x'' (VInt 20)],
           StmtClose])"
proof -
  have h1: "GetSql batch_of_three = Ok ''insert into t values (:x)''"
    by code_simp
  have h3: "prepare db_second_exec_fails
              (prepare_calls batch_of_three ''insert into t values (:x)'' []) = None"
    by (simp add: db_second_exec_fails_def)
  have h4: "BatchSize (Params batch_of_three) = 3"
    "map (\<lambda>p. length (ParamValues p)) (List (Params batch_of_three)) = [3]"
    by (simp_all add: batch_of_three_def)
  have f2: "ExecBatch db_ok 7 batch_of_three []
       = (Ok None,
          [DBPrepare None ''insert into t values (:x)'',
           StmtExec None [Named ''x'' (VInt 10)],
           StmtExec None [Named ''x'' (VInt 20)],
           StmtExec None [Named ''x'' (VInt 30)],
           StmtClose])"
    by code_simp
  have f3: "ExecBatch db_second_exec_fails 7 batch_of_three []
       = (Ok (Some ''duplicate key''),
          [DBPrepare None ''insert into t values (:x)'',
           StmtExec None [Named ''x'' (VInt 10)],
           StmtExec None [Named ''x'' (VInt 20)],
           StmtClose])"
    by code_simp
  from exec_batch_runs_BatchSize_times[of batch_of_three db_second_exec_fails 7 "[]" 3]
  have c: "count_calls is_prepare (snd (ExecBatch db_second_exec_fails 7 batch_of_three [])) = 1"
    by (auto simp: count_calls_def)
  show ?thesis
    by (rule conjI[OF h1 conjI[OF h3 conjI[OF h4(1) conjI[OF h4(2) conjI[OF c conjI[OF f2 f3]]]]]])
qed

section \<open>Properties of Prepare\<close>

lemma Prepare_loop_append:
  "Prepare_loop ms ps = ps\<lparr>List := List ps @ map discovered_param ms\<rparr>"
  by (induction ms arbitrary: ps) auto

lemma GetSql_godata_returns: "\<exists>sql. GetSql_godata ds = Ok sql"
proof -
  from macros_loop_returns obtain t where "macros_loop (Macros ds) (Strings_Text (Sql ds)) = Ok t"
    by blast
  then show ?thesis by (simp add: GetSql_godata_def rbind_def)
qed

lemma tokens_follow_space_dropWhile:
  "tokens_follow_space False s \<Longrightarrow> tokens_follow_space False (dropWhile is_word_char s)"
proof (induction s)
  case Nil
  then show ?case by simp
next
  case (Cons x xs)
  show ?case
  proof (cases "is_word_char x")
    case True
    then have "x \<noteq> CHR '' ''" by (auto simp: is_word_char_def)
    with Cons.prems have "tokens_follow_space False xs" by simp
    with Cons.IH True show ?thesis by simp
  next
    case False
    then have "dropWhile is_word_char (x # xs) = x # xs" by simp
    with Cons.prems show ?thesis by (simp only:)
  qed
qed

lemma tokens_follow_space_no_token:
  "tokens_follow_space b s \<Longrightarrow>
   \<not> (case s of [] \<Rightarrow> False | d # t \<Rightarrow> d = CHR '':'' \<and> (case t of e # r \<Rightarrow> is_word_char e | [] \<Rightarrow> False)) \<Longrightarrow>
   tokens_follow_space False s"
  by (cases s) (auto split: if_splits)

text \<open>
  On a text in which every token follows a space, the regular expression of
  \<^verbatim>\<open>src/godata.go\<close> finds the tokens of the spec, all of them and in their order.
\<close>

lemma find_params_spec:
  "tokens_follow_space False s \<Longrightarrow> find_params s = bind_tokens_spec s"
proof (induction s rule: find_params.induct)
  case 1
  show ?case by (simp add: find_params.simps bind_tokens_spec.simps)
next
  case (2 c s)
  note fs = "2.prems"
  have nc: "\<not> (c = CHR '':'' \<and> (case s of e # r \<Rightarrow> is_word_char e | [] \<Rightarrow> False))"
    using fs by (auto split: if_splits)
  have rest: "tokens_follow_space (c = CHR '' '') s"
    using fs by simp
  have bt: "bind_tokens_spec (c # s) = bind_tokens_spec s"
    using nc by (subst bind_tokens_spec.simps) auto
  show ?case
  proof (cases "c = CHR '' '' \<and> (case s of d # e # r \<Rightarrow> d = CHR '':'' \<and> is_word_char e | _ \<Rightarrow> False)")
    case True
    then obtain e r where s: "s = CHR '':'' # e # r" and e: "is_word_char e" and c: "c = CHR '' ''"
      by (auto split: list.splits)
    from rest s have "tokens_follow_space False (e # r)" by (simp split: if_splits)
    then have "tokens_follow_space False (dropWhile is_word_char (e # r))"
      by (rule tokens_follow_space_dropWhile)
    then have d: "tokens_follow_space False (dropWhile is_word_char (tl s))"
      by (simp add: s)
    have ih: "find_params (dropWhile is_word_char (tl s)) = bind_tokens_spec (dropWhile is_word_char (tl s))"
      by (rule "2.IH"(1)[OF True d])
    have f: "find_params (c # s)
             = takeWhile is_word_char (tl s) # find_params (dropWhile is_word_char (tl s))"
      using True by (subst find_params.simps) simp
    have b: "bind_tokens_spec s
             = takeWhile is_word_char (tl s) # bind_tokens_spec (dropWhile is_word_char (tl s))"
      unfolding s using e by (subst bind_tokens_spec.simps) simp
    show ?thesis by (simp only: f bt b ih)
  next
    case False
    have f: "find_params (c # s) = find_params s"
      using False by (subst find_params.simps) auto
    have "tokens_follow_space False s"
    proof (cases "c = CHR '' ''")
      case True
      with False have "\<not> (case s of [] \<Rightarrow> False | d # t \<Rightarrow> d = CHR '':'' \<and> (case t of e # r \<Rightarrow> is_word_char e | [] \<Rightarrow> False))"
        by (auto split: list.splits)
      with rest show ?thesis by (rule tokens_follow_space_no_token)
    next
      case False
      with rest show ?thesis by simp
    qed
    then have "find_params s = bind_tokens_spec s"
      by (rule "2.IH"(2)[OF False])
    then show ?thesis by (simp only: f bt)
  qed
qed

lemma bind_tokens_spec_words:
  "n \<in> set (bind_tokens_spec s) \<Longrightarrow> n \<noteq> [] \<and> (\<forall>c \<in> set n. is_word_char c)"
proof (induction s rule: bind_tokens_spec.induct)
  case 1
  then show ?case by (simp add: bind_tokens_spec.simps)
next
  case (2 c s)
  show ?case
  proof (cases "c = CHR '':'' \<and> (case s of e # r \<Rightarrow> is_word_char e | [] \<Rightarrow> False)")
    case True
    then obtain e r where s: "s = e # r" and e: "is_word_char e"
      by (auto split: list.splits)
    from "2.prems" True
    have "n = takeWhile is_word_char s \<or> n \<in> set (bind_tokens_spec (dropWhile is_word_char s))"
      by (subst (asm) bind_tokens_spec.simps) auto
    then show ?thesis
    proof
      assume n: "n = takeWhile is_word_char s"
      then have "n \<noteq> []" using s e by simp
      moreover have "\<forall>c \<in> set n. is_word_char c" unfolding n by (auto dest: set_takeWhileD)
      ultimately show ?thesis by simp
    next
      assume "n \<in> set (bind_tokens_spec (dropWhile is_word_char s))"
      with "2.IH"(1)[OF True] show ?thesis by simp
    qed
  next
    case False
    with "2.prems" have "n \<in> set (bind_tokens_spec s)"
      by (subst (asm) bind_tokens_spec.simps) auto
    with "2.IH"(2)[OF False] show ?thesis by simp
  qed
qed

text \<open>
  Claim C7, as stated, fails: \<^verbatim>\<open>Prepare\<close> does not look at the registered names. With
  \<open>x\<close> registered and occurring twice in the text, \<^verbatim>\<open>Prepare\<close> of \<^verbatim>\<open>src/godata.go\<close>
  appends \<open>x\<close> twice more.
\<close>

theorem prepare_skips_registered_counterexample:
  "map ParamName (List (Params registered_x)) = [''x'']
   \<and> param_names (Prepare_godata registered_x) = [''x'', ''x'', ''x'']"
  by code_simp

text \<open>
  Claim C7, amended. On an assembled SQL text in which every bind-variable token of the
  form \<open>:identifier\<close> follows a space, \<^verbatim>\<open>Prepare\<close> (\<^verbatim>\<open>src/godata.go\<close>) appends every
  occurrence of a token, in the order of the text, as an empty-valued input parameter
  after the parameters already registered. It does not check whether a name is
  registered already: a registered name, or a name that occurs twice, is appended again.
  \<^verbatim>\<open>Prepare\<close> always returns, and nothing but the parameter list changes. In the events
  copy the scan is the external preprocessor's, and \<^verbatim>\<open>Prepare\<close> appends in the same way
  every name that the preprocessor reports.
\<close>

theorem prepare_appends_every_token:
  "(\<exists>sql. GetSql_godata ds = Ok sql)
   \<and> (GetSql_godata ds = Ok sql \<and> tokens_follow_space False sql \<longrightarrow>
      (\<exists>ds'. Prepare_godata ds = Ok ds'
         \<and> ds' = ds\<lparr>Params := (Params ds)\<lparr>List := List (Params ds')\<rparr>\<rparr>
         \<and> List (Params ds') = List (Params ds) @ map discovered_param (bind_tokens_spec sql)
         \<and> map ParamName (List (Params ds'))
             = map ParamName (List (Params ds)) @ bind_tokens_spec sql
         \<and> (\<forall>n \<in> set (bind_tokens_spec sql). n \<noteq> [] \<and> (\<forall>c \<in> set n. is_word_char c))))
   \<and> (GetSql ds = Ok sql \<and> PreprocessSQL sql = Inr items \<longrightarrow>
      (\<exists>ds'. Prepare PreprocessSQL ds = Ok (None, ds')
         \<and> ds' = ds\<lparr>Params := (Params ds)\<lparr>List := List (Params ds')\<rparr>\<rparr>
         \<and> List (Params ds') = List (Params ds) @ map discovered_param items
         \<and> map ParamName (List (Params ds')) = map ParamName (List (Params ds)) @ items))"
proof (intro conjI impI)
  show "\<exists>sql. GetSql_godata ds = Ok sql" by (rule GetSql_godata_returns)
next
  assume a: "GetSql_godata ds = Ok sql \<and> tokens_follow_space False sql"
  then have f: "find_params sql = bind_tokens_spec sql" by (simp add: find_params_spec)
  have w: "\<forall>n \<in> set (bind_tokens_spec sql). n \<noteq> [] \<and> (\<forall>c \<in> set n. is_word_char c)"
    using bind_tokens_spec_words by blast
  from a f w
  show "\<exists>ds'. Prepare_godata ds = Ok ds'
         \<and> ds' = ds\<lparr>Params := (Params ds)\<lparr>List := List (Params ds')\<rparr>\<rparr>
         \<and> List (Params ds') = List (Params ds) @ map discovered_param (bind_tokens_spec sql)
         \<and> map ParamName (List (Params ds'))
             = map ParamName (List (Params ds)) @ bind_tokens_spec sql
         \<and> (\<forall>n \<in> set (bind_tokens_spec sql). n \<noteq> [] \<and> (\<forall>c \<in> set n. is_word_char c))"
    by (simp add: Prepare_godata_def rbind_def Prepare_loop_append discovered_param_def comp_def)
next
  assume "GetSql ds = Ok sql \<and> PreprocessSQL sql = Inr items"
  then show "\<exists>ds'. Prepare PreprocessSQL ds = Ok (None, ds')
         \<and> ds' = ds\<lparr>Params := (Params ds)\<lparr>List := List (Params ds')\<rparr>\<rparr>
         \<and> List (Params ds') = List (Params ds) @ map discovered_param items
         \<and> map ParamName (List (Params ds')) = map ParamName (List (Params ds)) @ items"
    by (simp add: Prepare_def rbind_def Prepare_loop_append discovered_param_def comp_def)
qed

theorem prepare_appends_every_token_witness:
  "GetSql_godata unregistered_y_z = Ok ''update t set a = :y where id = :z''
   \<and> tokens_follow_space False ''update t set a = :y where id = :z''
   \<and> bind_tokens_spec ''update t set a = :y where id = :z'' = [''y'', ''z'']
   \<and> GetSql unregistered_y_z = Ok ''update t set a = :y where id = :z''
   \<and> param_names (Prepare_godata unregistered_y_z) = [''y'', ''z'']
   \<and> (\<exists>ds'. Prepare (\<lambda>sql. Inr [''y'', ''z'']) unregistered_y_z = Ok (None, ds')
              \<and> map ParamName (List (Params ds')) = [''y'', ''z''])"
proof -
  have h1: "GetSql_godata unregistered_y_z = Ok ''update t set a = :y where id = :z''"
    by code_simp
  have h2: "GetSql unregistered_y_z = Ok ''update t set a = :y where id = :z''"
    by code_simp
  have h3: "tokens_follow_space False ''update t set a = :y where id = :z''"
    by code_simp
  have f: "bind_tokens_spec ''update t set a = :y where id = :z'' = [''y'', ''z'']"
    by code_simp
  have p: "List (Params unregistered_y_z) = []"
    by (simp add: unregistered_y_z_def AddSql_def NewDataSet_def NewParams_def)
  note t = prepare_appends_every_token
             [of unregistered_y_z "''update t set a = :y where id = :z''"
                 "\<lambda>sql. Inr [''y'', ''z'']" "[''y'', ''z'']"]
  from mp[OF conjunct1[OF conjunct2[OF t]] conjI[OF h1 h3]] f p
  have a: "param_names (Prepare_godata unregistered_y_z) = [''y'', ''z'']"
    by (auto simp: param_names_def)
  from conjunct2[OF conjunct2[OF t]] h2 p
  have b: "\<exists>ds'. Prepare (\<lambda>sql. Inr [''y'', ''z'']) unregistered_y_z = Ok (None, ds')
              \<and> map ParamName (List (Params ds')) = [''y'', ''z'']"
    by auto
  from h1 h2 h3 f a b show ?thesis by blast
qed

text \<open>
  A token that follows another character than a space is outside the amended claim:
  the regular expression of \<^verbatim>\<open>src/godata.go\<close> asks for a space before the colon, so
  that \<^verbatim>\<open>Prepare\<close> does not find a token right after a parenthesis.
\<close>

lemma prepare_godata_misses_token_after_parenthesis:
  "bind_tokens_spec ''insert into t values (:x, :y)'' = [''x'', ''y'']
   \<and> find_params ''insert into t values (:x, :y)'' = [''y'']
   \<and> find_params ''insert into t values (:x)'' = []"
  by code_simp

section \<open>Properties of ToStruct\<close>

lemma Eof_First: "Eof (First ds) = (Rows ds = [])"
  by (simp add: Eof_def First_def Count_def Let_def)

lemma toStructUniqResult_not_struct:
  "\<not> is_struct t \<Longrightarrow>
   toStructUniqResult ds t v
     = (Panic ''reflect: call of reflect.Value.NumField on a value that is not a struct'', v)"
  by (cases t) simp_all

lemma toStructList_not_struct:
  "\<not> is_struct t \<Longrightarrow>
   toStructList ds t is_slice v
     = (if Rows ds = [] then (Ok (), v, First ds)
        else (Panic ''reflect: call of reflect.Value.NumField on a value that is not a struct'',
              v, First ds))"
  by (subst toStructList_def, subst toStructList_loop.simps)
     (simp add: Eof_First toStructUniqResult_not_struct)

text \<open>
  Where \<^verbatim>\<open>ToStruct\<close> does return an error: for a value that is not a pointer, and for a
  pointer to something whose kind is neither struct nor slice nor array. The destination
  and the DataSet stay as they were.
\<close>

lemma to_struct_refuses_other_kinds:
  "(\<not> is_pointer t \<longrightarrow>
      ToStruct ds (Holding t d)
        = (Ok (Some (''the variable '' @ type_name t @ '' is not a pointer.'')), d, ds))
   \<and> (\<not> is_struct t \<and> \<not> is_slice_or_array t \<longrightarrow>
      ToStruct ds (Holding (TPointer t) d)
        = (Ok (Some ''the interface is not a slice, array or struct''), d, ds))"
  by (cases t) simp_all

text \<open>
  Claim C9: a pointer to a slice or an array whose elements are not structs is not
  refused. \<^verbatim>\<open>ToStruct\<close> looks at the kind of what the pointer points to and at nothing
  else, so such a destination goes to \<^verbatim>\<open>toStructList\<close>. On a DataSet with rows the first
  round of the loop makes a new value of the element type and \<^verbatim>\<open>toStructUniqResult\<close>
  calls \<^verbatim>\<open>NumField\<close> on it: \<^verbatim>\<open>reflect\<close> panics and no error is returned. On a DataSet
  without rows the loop is not entered and \<^verbatim>\<open>ToStruct\<close> returns nil. In both cases the
  destination is left as it was and the cursor has been moved to the first row.
\<close>

theorem to_struct_slice_of_non_structs_panics:
  assumes "\<not> is_struct t"
  shows "(Rows ds \<noteq> [] \<longrightarrow>
            ToStruct ds (Holding (TPointer (TSlice t)) (Some v))
              = (Panic ''reflect: call of reflect.Value.NumField on a value that is not a struct'',
                 Some v, First ds)
          \<and> ToStruct ds (Holding (TPointer (TArray n t)) (Some v))
              = (Panic ''reflect: call of reflect.Value.NumField on a value that is not a struct'',
                 Some v, First ds))
       \<and> (Rows ds = [] \<longrightarrow>
            ToStruct ds (Holding (TPointer (TSlice t)) (Some v)) = (Ok None, Some v, First ds)
          \<and> ToStruct ds (Holding (TPointer (TArray n t)) (Some v)) = (Ok None, Some v, First ds))"
  using assms by (simp add: toStructList_not_struct nil_error_def)

theorem to_struct_slice_of_non_structs_panics_witness:
  "\<not> is_struct TInt
   \<and> Rows on_row_ann \<noteq> []
   \<and> fst (ToStruct on_row_ann (Holding (TPointer (TSlice TInt)) (Some Zero)))
       = Panic ''reflect: call of reflect.Value.NumField on a value that is not a struct''
   \<and> fst (snd (ToStruct on_row_ann (Holding (TPointer (TSlice TInt)) (Some Zero)))) = Some Zero
   \<and> Rows no_rows = []
   \<and> fst (ToStruct no_rows (Holding (TPointer (TSlice TInt)) (Some Zero))) = Ok None
   \<and> fst (snd (ToStruct no_rows (Holding (TPointer (TSlice TInt)) (Some Zero)))) = Some Zero"
proof -
  have i: "\<not> is_struct TInt" by simp
  have r: "Rows on_row_ann \<noteq> []" by (simp add: on_row_ann_def)
  have e: "Rows no_rows = []" by (simp add: no_rows_def NewDataSet_def)
  note a = to_struct_slice_of_non_structs_panics[OF i, of on_row_ann Zero 0]
  note b = to_struct_slice_of_non_structs_panics[OF i, of no_rows Zero 0]
  from conjunct1[OF mp[OF conjunct1[OF a] r]] conjunct1[OF mp[OF conjunct2[OF b] e]] i r e
  show ?thesis by simp
qed

text \<open>
  A destination that \<^verbatim>\<open>ToStruct\<close> is meant for: the row \<open>ID = 5, NAME = Ann\<close> bound onto a
  \<open>Person\<close>, and onto a slice of \<open>Person\<close>.
\<close>

lemma to_struct_binds_person:
  "ToStruct on_row_ann (Holding (TPointer Person) (Some Zero))
     = (Ok None,
        Some (StructVal [Converted TInt (VInt 5), Converted TString (VStr ''Ann'')]),
        on_row_ann)
   \<and> fst (ToStruct on_row_ann (Holding (TPointer (TSlice Person)) (Some Zero))) = Ok None
   \<and> fst (snd (ToStruct on_row_ann (Holding (TPointer (TSlice Person)) (Some Zero))))
     = Some (SliceVal [StructVal [Converted TInt (VInt 5), Converted TString (VStr ''Ann'')]])"
proof -
  have u1: "fst (toStructUniqResult on_row_ann Person Zero) = Ok ()"
    by code_simp
  have u2: "snd (toStructUniqResult on_row_ann Person Zero)
            = StructVal [Converted TInt (VInt 5), Converted TString (VStr ''Ann'')]"
    by code_simp
  have r3: "ToStruct on_row_ann (Holding (TPointer Person) (Some Zero))
     = (Ok None,
        Some (StructVal [Converted TInt (VInt 5), Converted TString (VStr ''Ann'')]),
        on_row_ann)"
    using u1 u2 by (simp add: Person_def nil_error_def split: prod.splits)
  have l1: "fst (ToStruct on_row_ann (Holding (TPointer (TSlice Person)) (Some Zero))) = Ok None"
    by code_simp
  have l2: "fst (snd (ToStruct on_row_ann (Holding (TPointer (TSlice Person)) (Some Zero))))
     = Some (SliceVal [StructVal [Converted TInt (VInt 5), Converted TString (VStr ''Ann'')]])"
    by code_simp
  show ?thesis
    by (rule conjI[OF r3 conjI[OF l1 l2]])
qed

text \<open>
  Two further faults of the binding: an unexported field of the destination, and a
  field of type \<^verbatim>\<open>*float32\<close> on a column that is not null, make \<^verbatim>\<open>reflect\<close> panic.
\<close>

lemma to_struct_unexported_and_float32_pointer:
  "fst (ToStruct on_row_ann
          (Holding (TPointer (TStruct ''T'' [(''id'', ''ID'', False, False, TInt)])) (Some Zero)))
     = Panic ''reflect.Value.Interface: cannot return value obtained from unexported field or method''
   \<and> fst (ToStruct on_row_ann
          (Holding (TPointer (TStruct ''T'' [(''ID'', [], False, True, TPointer TFloat32)])) (Some Zero)))
     = Panic ''reflect.Value.Convert: value of type *float64 cannot be converted to type *float32''"
  by code_simp

section \<open>Properties of Open\<close>

lemma GetSqlMasterDetail_frame:
  "GetSqlMasterDetail ds tr = (r, ds1, tr1) \<Longrightarrow> \<exists>ps. ds1 = ds\<lparr>Params := ps\<rparr>"
  unfolding GetSqlMasterDetail_def
  by (auto simp: Let_def split: result.splits option.splits prod.splits if_splits
           intro: exI[of _ "Params ds"])

lemma GetSqlMasterDetail_trace:
  "GetSqlMasterDetail ds tr = (r, ds1, tr1) \<Longrightarrow>
   tr1 = tr \<or> tr1 = tr @ [Println ''MasterFields or DetailFields field cannot be empty'']"
  unfolding GetSqlMasterDetail_def
  by (auto simp: Let_def split: result.splits option.splits prod.splits if_splits)





lemma count_GetSqlMasterDetail:
  "GetSqlMasterDetail ds tr = (r, ds1, tr1) \<Longrightarrow>
   count_calls is_reopen tr1 = count_calls is_reopen tr
   \<and> count_calls is_query tr1 = count_calls is_query tr"
  by (drule GetSqlMasterDetail_trace) (auto simp: count_calls_def)

lemma count_log_query:
  "count_calls is_reopen (log_query c q ds tr) = count_calls is_reopen tr
   \<and> count_calls is_query (log_query c q ds tr) = count_calls is_query tr"
  by (simp add: log_query_def count_calls_def)

lemma count_Open_rows:
  "count_calls is_reopen (snd (snd (Open_rows ds rows tr))) = count_calls is_reopen tr
   \<and> count_calls is_query (snd (snd (Open_rows ds rows tr))) = count_calls is_query tr"
  by (auto simp: Open_rows_def count_calls_def split: prod.splits result.splits)

lemma count_Open_connection:
  "count_calls is_reopen (snd (snd (Open_connection drv ds q c p tr)))
     \<le> count_calls is_reopen tr + 1
   \<and> count_calls is_query (snd (snd (Open_connection drv ds q c p tr)))
     \<le> count_calls is_query tr + 2"
  unfolding Open_connection_def Let_def
  by (auto simp: count_Open_rows split: sum.splits option.splits) (auto simp: count_calls_def)

lemma count_Open:
  "count_calls is_reopen (snd (snd (Open drv ds tr))) \<le> count_calls is_reopen tr + 1
   \<and> count_calls is_query (snd (snd (Open drv ds tr))) \<le> count_calls is_query tr + 2"
proof -
  obtain r ds1 tr1
    where g: "GetSqlMasterDetail (ds\<lparr>Rows := [], Index := 0, Recno := 0\<rparr>) tr = (r, ds1, tr1)"
    by (metis prod_cases3)
  note c1 = count_GetSqlMasterDetail[OF g]
  show ?thesis
  proof (cases r)
    case (Ok q)
    show ?thesis
    proof (cases "Tx ds1")
      case None
      with g Ok show ?thesis
        using count_Open_connection[of drv ds1 q "Ctx ds1" None
                "log_query (Connection ds1) q ds1 tr1"]
        by (simp add: Open_def count_log_query c1)
    next
      case (Some tx)
      with g Ok show ?thesis
        using count_log_query[of "TxConn tx" q ds1 tr1] c1
        by (auto simp: Open_def Let_def count_Open_rows split: sum.splits)
           (auto simp: count_calls_def)
    qed
  next
    case (Panic e)
    with g c1 show ?thesis by (simp add: Open_def)
  next
    case NoReturn
    with g c1 show ?thesis by (simp add: Open_def)
  qed
qed

lemma GetSqlMasterDetail_opened_before:
  "GetSqlMasterDetail (opened_before\<lparr>Rows := [], Index := 0, Recno := 0\<rparr>) []
   = (Ok ''select id from t'', opened_before\<lparr>Rows := [], Index := 0, Recno := 0\<rparr>, [])"
  by (simp add: GetSqlMasterDetail_def GetSql_def opened_before_def AddSql_def NewDataSet_def
        NewMacros_def NewMasterSource_def Strings_Add_def Strings_Text_def rbind_def
        replaceAllParam_def dialect_of_def newlines_def strings_ReplaceAll.simps)

text \<open>
  Claim C6, as stated, fails in one point: when the ping succeeds the error of the query is
  not surfaced unchanged. \<^verbatim>\<open>Open\<close> returns a new error made by
  \<^verbatim>\<open>fmt.Errorf("could not open dataset %v\n", err)\<close>.
\<close>

theorem open_ping_ok_error_unchanged_counterexample:
  "query db_down_ping_ok [DBQuery None ''select id from t'' []] = Inl ''down''
   \<and> ping db_down_ping_ok [DBQuery None ''select id from t'' [], DBPing None] = None
   \<and> fst (Open db_down_ping_ok opened_before [])
       = Ok (Some (''could not open dataset down'' @ [CHR 0x0A]))
   \<and> fst (Open db_down_ping_ok opened_before []) \<noteq> Ok (Some ''down'')"
  by (simp add: Open_def GetSqlMasterDetail_opened_before)
     (simp add: Open_connection_def Let_def log_query_def opened_before_def AddSql_def
        NewDataSet_def db_down_ping_ok_def)

text \<open>
  Claim C6, amended. When the query of \<^verbatim>\<open>Open\<close> against the connection (no transaction
  bound) fails with \<open>err\<close>, the engine pings the connection. If the ping succeeds,
  \<^verbatim>\<open>Open\<close> returns a new error whose message is \<open>could not open dataset\<close>, the message
  of \<open>err\<close> and a newline (so not \<open>err\<close> itself). If the ping fails, it reopens the
  connection: when that fails it returns \<open>err\<close>; when that succeeds it runs the query
  once more and either returns the error of this second query or goes on with its rows.
  In every case one call of \<^verbatim>\<open>Open\<close> reopens the connection at most once and queries at
  most twice.
\<close>

theorem open_pings_then_reconnects_once:
  assumes tx: "Tx ds = None"
    and g: "GetSqlMasterDetail (ds\<lparr>Rows := [], Index := 0, Recno := 0\<rparr>) tr = (Ok q, ds1, tr1)"
    and t1: "t1 = log_query (Connection ds1) q ds1 tr1 @ [DBQuery (Ctx ds1) q (GetParams ds1)]"
    and fail: "query drv t1 = Inl err"
  shows "(case ping drv (t1 @ [DBPing None]) of
            None \<Rightarrow>
              Open drv ds tr
                = (Ok (Some (''could not open dataset '' @ err @ [CHR 0x0A])), ds1,
                   t1 @ [DBPing None])
          | Some errPing \<Rightarrow>
              (case reopen drv (t1 @ [DBPing None, ConnOpen]) of
                 Some errConn \<Rightarrow>
                   Open drv ds tr = (Ok (Some err), ds1, t1 @ [DBPing None, ConnOpen])
               | None \<Rightarrow>
                   (case query drv (t1 @ [DBPing None, ConnOpen,
                                           DBQuery (Ctx ds1) q (GetParams ds1)]) of
                      Inl err' \<Rightarrow>
                        Open drv ds tr
                          = (Ok (Some err'), ds1,
                             t1 @ [DBPing None, ConnOpen, DBQuery (Ctx ds1) q (GetParams ds1)])
                    | Inr rows \<Rightarrow>
                        Open drv ds tr
                          = Open_rows ds1 rows
                              (t1 @ [DBPing None, ConnOpen,
                                     DBQuery (Ctx ds1) q (GetParams ds1)]))))
       \<and> ''could not open dataset '' @ err @ [CHR 0x0A] \<noteq> err
       \<and> count_calls is_reopen (snd (snd (Open drv ds tr))) \<le> count_calls is_reopen tr + 1
       \<and> count_calls is_query (snd (snd (Open drv ds tr))) \<le> count_calls is_query tr + 2"
proof -
  from GetSqlMasterDetail_frame[OF g] tx have tx1: "Tx ds1 = None" by auto
  have o: "Open drv ds tr
           = Open_connection drv ds1 q (Ctx ds1) None (log_query (Connection ds1) q ds1 tr1)"
    by (simp add: Open_def g tx1)
  have a: "(case ping drv (t1 @ [DBPing None]) of
            None \<Rightarrow>
              Open drv ds tr
                = (Ok (Some (''could not open dataset '' @ err @ [CHR 0x0A])), ds1,
                   t1 @ [DBPing None])
          | Some errPing \<Rightarrow>
              (case reopen drv (t1 @ [DBPing None, ConnOpen]) of
                 Some errConn \<Rightarrow>
                   Open drv ds tr = (Ok (Some err), ds1, t1 @ [DBPing None, ConnOpen])
               | None \<Rightarrow>
                   (case query drv (t1 @ [DBPing None, ConnOpen,
                                           DBQuery (Ctx ds1) q (GetParams ds1)]) of
                      Inl err' \<Rightarrow>
                        Open drv ds tr
                          = (Ok (Some err'), ds1,
                             t1 @ [DBPing None, ConnOpen, DBQuery (Ctx ds1) q (GetParams ds1)])
                    | Inr rows \<Rightarrow>
                        Open drv ds tr
                          = Open_rows ds1 rows
                              (t1 @ [DBPing None, ConnOpen,
                                     DBQuery (Ctx ds1) q (GetParams ds1)]))))"
    using fail unfolding o Open_connection_def Let_def t1
    by (simp split: option.splits sum.splits)
  have b: "''could not open dataset '' @ err @ [CHR 0x0A] \<noteq> err"
  proof
    assume "''could not open dataset '' @ err @ [CHR 0x0A] = err"
    then have "length (''could not open dataset '' @ err @ [CHR 0x0A]) = length err" by simp
    then show False by simp
  qed
  from a b count_Open[of drv ds tr] show ?thesis by blast
qed

theorem open_pings_then_reconnects_once_witness:
  "Tx opened_before = None
   \<and> query db_reconnects [DBQuery None ''select id from t'' []] = Inl ''down''
   \<and> fst (Open db_reconnects opened_before []) = Ok None
   \<and> snd (snd (Open db_reconnects opened_before []))
       = [DBQuery None ''select id from t'' [], DBPing None, ConnOpen,
          DBQuery None ''select id from t'' [], RowsClose]
   \<and> count_calls is_reopen (snd (snd (Open db_reconnects opened_before []))) \<le> 1
   \<and> count_calls is_query (snd (snd (Open db_reconnects opened_before []))) \<le> 2"
proof -
  have tx: "Tx opened_before = None"
    by (simp add: opened_before_def AddSql_def NewDataSet_def)
  have t1: "[DBQuery None ''select id from t'' []]
            = log_query (Connection (opened_before\<lparr>Rows := [], Index := 0, Recno := 0\<rparr>))
                ''select id from t'' (opened_before\<lparr>Rows := [], Index := 0, Recno := 0\<rparr>) []
              @ [DBQuery (Ctx (opened_before\<lparr>Rows := [], Index := 0, Recno := 0\<rparr>))
                   ''select id from t''
                   (GetParams (opened_before\<lparr>Rows := [], Index := 0, Recno := 0\<rparr>))]"
    by (simp add: log_query_def opened_before_def AddSql_def NewDataSet_def GetParams_def
          NewParams_def)
  have fail: "query db_reconnects [DBQuery None ''select id from t'' []] = Inl ''down''"
    by (simp add: db_reconnects_def)
  from open_pings_then_reconnects_once[OF tx GetSqlMasterDetail_opened_before t1 fail]
  show ?thesis
    by (simp add: tx count_calls_def)
       (simp add: db_reconnects_def opened_before_def AddSql_def NewDataSet_def GetParams_def
          NewParams_def Open_rows_def scan_def NewFields_def scan_new_fields.simps
          Fields_Add_def)
qed



section \<open>Open in src/godata.go: the same reset, no retry\<close>

lemma GetSqlMasterDetail_godata_frame:
  "GetSqlMasterDetail_godata ds tr = (r, ds1, tr1) \<Longrightarrow> \<exists>ps. ds1 = ds\<lparr>Params := ps\<rparr>"
  unfolding GetSqlMasterDetail_godata_def
  by (auto simp: Let_def split: result.splits option.splits prod.splits if_splits
           intro: exI[of _ "Params ds"])

lemma CreateFields_godata_frame:
  "\<exists>fl. snd (CreateFields_godata select_names ds) = ds\<lparr>Fields := fl\<rparr>"
  unfolding CreateFields_godata_def
  by (auto split: result.splits sum.splits intro: exI[of _ "Fields ds"])

text \<open>
  The older copy discards the rows of an earlier \<^verbatim>\<open>Open\<close> in the same way when it returns
  an error.
\<close>

lemma failed_open_godata_discards_rows:
  assumes "Open_godata select_names drv ctx ds tr = (Ok (Some e), ds', tr')"
  shows "Rows ds' = [] \<and> Index ds' = 0 \<and> Recno ds' = 0"
proof -
  let ?ds0 = "ds\<lparr>Rows := [], Index := 0, Recno := 0\<rparr>"
  let ?ds1 = "if length (Fields ?ds0) = 0 then snd (CreateFields_godata select_names ?ds0) else ?ds0"
  from CreateFields_godata_frame[of select_names ?ds0]
  have f1: "Rows ?ds1 = [] \<and> Index ?ds1 = 0 \<and> Recno ?ds1 = 0" by auto
  obtain r ds2 tr1 where g: "GetSqlMasterDetail_godata ?ds1 tr = (r, ds2, tr1)"
    by (metis prod_cases3)
  from GetSqlMasterDetail_godata_frame[OF g] f1
  have f2: "Rows ds2 = [] \<and> Index ds2 = 0 \<and> Recno ds2 = 0" by auto
  have "ds' = ds2"
    using assms g unfolding Open_godata_def Let_def
    by (auto split: result.splits option.splits sum.splits prod.splits if_splits)
  with f2 show ?thesis by simp
qed

text \<open>
  The older copy does not retry: when the query fails, the ping fails and the reopen
  succeeds, it asks the database nothing more and panics.
\<close>

lemma open_godata_does_not_retry:
  "fst (Open_godata (\<lambda>sql. Inr []) db_reconnects None opened_before [])
     = Panic ''nil pointer dereference''
   \<and> snd (snd (Open_godata (\<lambda>sql. Inr []) db_reconnects None opened_before []))
     = [DBQuery None ''select id from t'' [], DBPing None, ConnOpen]"
  by code_simp

end
